theory Spec2Isabelle
  imports Main "HOL-Library.AList"
begin

section \<open>Byte strings\<close>

text \<open>
  A Go \<open>string\<close> and a Go \<open>[]byte\<close> are sequences of bytes. Both are modelled as
  \<^typ>\<open>string\<close>, a list of 8-bit characters; a code point beyond ASCII is its UTF-8 bytes.
\<close>

text \<open>\<open>strings.HasPrefix\<close>, \<open>strings.HasSuffix\<close> and \<open>strings.Contains\<close> (\<open>bytes.Contains\<close>).\<close>

fun hasPrefix :: "string \<Rightarrow> string \<Rightarrow> bool" where
  "hasPrefix s [] = True"
| "hasPrefix [] (p # ps) = False"
| "hasPrefix (c # cs) (p # ps) = (c = p \<and> hasPrefix cs ps)"

definition hasSuffix :: "string \<Rightarrow> string \<Rightarrow> bool" where
  "hasSuffix s w = hasPrefix (rev s) (rev w)"

fun contains :: "string \<Rightarrow> string \<Rightarrow> bool" where
  "contains [] sub = (sub = [])"
| "contains (c # cs) sub = (hasPrefix (c # cs) sub \<or> contains cs sub)"

text \<open>\<open>strings.ReplaceAll(s, old, "")\<close> for a one-byte \<open>old\<close>: every occurrence is dropped.\<close>

definition removeAllByte :: "char \<Rightarrow> string \<Rightarrow> string" where
  "removeAllByte c s = filter (\<lambda>x. x \<noteq> c) s"

text \<open>
  \<open>strings.TrimSpace\<close> (\<open>bytes.TrimSpace\<close>) removes leading and trailing white space as
  Unicode defines it. The table lists the UTF-8 encodings of the code points for which
  \<open>unicode.IsSpace\<close> holds: the six ASCII ones, U+0085, U+00A0, U+1680, U+2000 to U+200A,
  U+2028, U+2029, U+202F, U+205F and U+3000. A byte that does not start one of these
  encodings (an invalid byte included) is not white space.
\<close>

definition unicodeSpaces :: "string list" where
  "unicodeSpaces = map (map char_of)
     ([[0x09], [0x0A], [0x0B], [0x0C], [0x0D], [0x20], [0xC2, 0x85], [0xC2, 0xA0],
       [0xE1, 0x9A, 0x80]]
      @ map (\<lambda>n. [0xE2, 0x80, n]) [0x80 ..< 0x8B]
      @ [[0xE2, 0x80, 0xA8], [0xE2, 0x80, 0xA9], [0xE2, 0x80, 0xAF], [0xE2, 0x81, 0x9F],
         [0xE3, 0x80, 0x80 :: nat]])"

text \<open>The number of bytes of the white-space rune a string starts (ends) with; 0 when none.\<close>

definition leadingSpace :: "string \<Rightarrow> nat" where
  "leadingSpace s = (case find (hasPrefix s) unicodeSpaces of Some w \<Rightarrow> length w | None \<Rightarrow> 0)"

definition trailingSpace :: "string \<Rightarrow> nat" where
  "trailingSpace s = (case find (hasSuffix s) unicodeSpaces of Some w \<Rightarrow> length w | None \<Rightarrow> 0)"

lemma hasPrefix_length: "hasPrefix s w \<Longrightarrow> length w \<le> length s"
  by (induction s w rule: hasPrefix.induct) auto

lemma leadingSpace_le: "leadingSpace s \<le> length s"
  by (auto simp: leadingSpace_def find_Some_iff dest: hasPrefix_length split: option.splits)

lemma trailingSpace_le: "trailingSpace s \<le> length s"
proof (cases "find (hasSuffix s) unicodeSpaces")
  case None
  then show ?thesis by (simp add: trailingSpace_def)
next
  case (Some w)
  then have "hasPrefix (rev s) (rev w)"
    by (auto simp: find_Some_iff hasSuffix_def)
  from hasPrefix_length [OF this] Some show ?thesis
    by (simp add: trailingSpace_def)
qed

function trimLeft :: "string \<Rightarrow> string" where
  "trimLeft s = (if leadingSpace s = 0 then s else trimLeft (drop (leadingSpace s) s))"
  by pat_completeness auto
termination
proof (relation "measure length")
  fix s :: string
  assume "leadingSpace s \<noteq> 0"
  with leadingSpace_le [of s] show "(drop (leadingSpace s) s, s) \<in> measure length"
    by simp
qed simp

function trimRight :: "string \<Rightarrow> string" where
  "trimRight s =
     (if trailingSpace s = 0 then s else trimRight (take (length s - trailingSpace s) s))"
  by pat_completeness auto
termination
proof (relation "measure length")
  fix s :: string
  assume "trailingSpace s \<noteq> 0"
  with trailingSpace_le [of s] show "(take (length s - trailingSpace s) s, s) \<in> measure length"
    by simp
qed simp

declare trimLeft.simps [simp del] trimRight.simps [simp del]

definition TrimSpace :: "string \<Rightarrow> string" where
  "TrimSpace s = trimRight (trimLeft s)"

section \<open>The standard library's base64 codec\<close>

text \<open>
  \<open>encoding/base64\<close> as the decoder uses it. An encoding is an alphabet of 64 characters and
  an optional padding character; none of the encodings used is strict.
\<close>

definition encodeStd :: string where
  "encodeStd = ''ABCDEFGHIJKLMNOPQRSTUVWXYZabcdefghijklmnopqrstuvwxyz0123456789+/''"

definition encodeURL :: string where
  "encodeURL = ''ABCDEFGHIJKLMNOPQRSTUVWXYZabcdefghijklmnopqrstuvwxyz0123456789-_''"

record Encoding =
  alphabet :: string
  padChar :: "char option"

definition StdEncoding :: Encoding where
  "StdEncoding = \<lparr>alphabet = encodeStd, padChar = Some (CHR ''='')\<rparr>"

definition URLEncoding :: Encoding where
  "URLEncoding = \<lparr>alphabet = encodeURL, padChar = Some (CHR ''='')\<rparr>"

definition RawStdEncoding :: Encoding where
  "RawStdEncoding = \<lparr>alphabet = encodeStd, padChar = None\<rparr>"

text \<open>The decode map: the position of a character in the alphabet.\<close>

fun index_of :: "char \<Rightarrow> string \<Rightarrow> nat option" where
  "index_of c [] = None"
| "index_of c (x # xs) = (if c = x then Some 0 else map_option Suc (index_of c xs))"

definition isNewline :: "char \<Rightarrow> bool" where
  "isNewline c = (c = CHR 0x0A \<or> c = CHR 0x0D)"

text \<open>
  The bytes of one quantum: four 6-bit digits give three bytes, three give two, two give
  one. The library shifts the digits into one word and cuts it into bytes.
\<close>

fun quantumBytes :: "nat list \<Rightarrow> string" where
  "quantumBytes [d0, d1, d2, d3] =
     (let v = d0 * 262144 + d1 * 4096 + d2 * 64 + d3
      in [char_of (v div 65536), char_of (v div 256), char_of v])"
| "quantumBytes [d0, d1, d2] =
     (let v = d0 * 262144 + d1 * 4096 + d2 * 64
      in [char_of (v div 65536), char_of (v div 256)])"
| "quantumBytes [d0, d1] =
     (let v = d0 * 262144 + d1 * 4096 in [char_of (v div 65536)])"
| "quantumBytes ds = []"

text \<open>
  \<open>Encoding.Decode\<close> with \<open>decodeQuantum\<close>, as one loop over the input: \<open>dbuf\<close> holds the
  digits of the current quantum. Carriage return and line feed are skipped anywhere;
  a padding character is accepted only after two or three digits of the last quantum,
  twice after two digits, and only new lines may follow it. The input may end inside a
  quantum only when the encoding has no padding and the quantum has at least two digits.
  \<open>None\<close> is the library's \<open>CorruptInputError\<close>.
\<close>

fun decodeLoop :: "Encoding \<Rightarrow> nat list \<Rightarrow> string \<Rightarrow> string option" where
  "decodeLoop enc dbuf [] =
     (if dbuf = [] then Some []
      else if length dbuf = 1 \<or> padChar enc \<noteq> None then None
      else Some (quantumBytes dbuf))"
| "decodeLoop enc dbuf (c # src) =
     (case index_of c (alphabet enc) of
        Some d \<Rightarrow>
          if length dbuf = 3
          then map_option (\<lambda>r. quantumBytes (dbuf @ [d]) @ r) (decodeLoop enc [] src)
          else decodeLoop enc (dbuf @ [d]) src
      | None \<Rightarrow>
          if isNewline c then decodeLoop enc dbuf src
          else if Some c \<noteq> padChar enc then None
          else if length dbuf < 2 then None
          else if length dbuf = 2 then
            (case dropWhile isNewline src of
               [] \<Rightarrow> None
             | p # rest \<Rightarrow>
                 if Some p \<noteq> padChar enc then None
                 else if dropWhile isNewline rest \<noteq> [] then None
                 else Some (quantumBytes dbuf))
          else if dropWhile isNewline src \<noteq> [] then None
          else Some (quantumBytes dbuf))"

definition DecodeString :: "Encoding \<Rightarrow> string \<Rightarrow> string option" where
  "DecodeString enc s = decodeLoop enc [] s"

text \<open>\<open>Encoding.EncodeToString\<close> for a padded encoding with the given alphabet.\<close>

fun EncodeToString :: "string \<Rightarrow> string \<Rightarrow> string" where
  "EncodeToString al [] = []"
| "EncodeToString al [a] =
     (let v = of_char a * 65536
      in [al ! (v div 262144), al ! (v div 4096 mod 64), CHR ''='', CHR ''=''])"
| "EncodeToString al [a, b] =
     (let v = of_char a * 65536 + of_char b * 256
      in [al ! (v div 262144), al ! (v div 4096 mod 64), al ! (v div 64 mod 64), CHR ''=''])"
| "EncodeToString al (a # b # c # rest) =
     (let v = of_char a * 65536 + of_char b * 256 + of_char c
      in [al ! (v div 262144), al ! (v div 4096 mod 64), al ! (v div 64 mod 64),
          al ! (v mod 64)] @ EncodeToString al rest)"

section \<open>The standard library's query unescaping\<close>

definition ishex :: "char \<Rightarrow> bool" where
  "ishex c = (let n = (of_char c :: nat)
     in (48 \<le> n \<and> n \<le> 57) \<or> (97 \<le> n \<and> n \<le> 102) \<or> (65 \<le> n \<and> n \<le> 70))"

definition unhex :: "char \<Rightarrow> nat" where
  "unhex c = (let n = (of_char c :: nat)
     in if 48 \<le> n \<and> n \<le> 57 then n - 48
        else if 97 \<le> n \<and> n \<le> 102 then n - 97 + 10
        else if 65 \<le> n \<and> n \<le> 70 then n - 65 + 10
        else 0)"

text \<open>
  \<open>url.QueryUnescape\<close>: a percent sign with two hexadecimal digits becomes the byte they
  name, a plus sign becomes a space; a percent sign without two hexadecimal digits is an
  error (\<open>None\<close>).
\<close>

fun QueryUnescape :: "string \<Rightarrow> string option" where
  "QueryUnescape [] = Some []"
| "QueryUnescape (c # cs) =
     (if c = CHR ''%'' then
        (case cs of
           h1 # h2 # rest \<Rightarrow>
             if ishex h1 \<and> ishex h2
             then map_option ((#) (char_of (unhex h1 * 16 + unhex h2))) (QueryUnescape rest)
             else None
         | _ \<Rightarrow> None)
      else if c = CHR ''+'' then map_option ((#) (CHR '' '')) (QueryUnescape cs)
      else map_option ((#) c) (QueryUnescape cs))"

section \<open>The decoder\<close>

text \<open>
  The errors the package returns, one constructor for each message it wraps an error
  in, and the class the specification gives each.
\<close>

datatype error =
    Base64DecodeFailed
  | DeflateDecompressionFailed
  | DeflateFailed
  | ParseResponseFailed
  | ParseAuthnRequestFailed
  | ParseAssertionFailed
  | ParseHARFailed

datatype error_class =
  MalformedEncoding | DecompressionFailed | CompressionFailed | MalformedXML
  | UnsupportedDocument

fun class_of :: "error \<Rightarrow> error_class" where
  "class_of Base64DecodeFailed = MalformedEncoding"
| "class_of DeflateDecompressionFailed = DecompressionFailed"
| "class_of DeflateFailed = CompressionFailed"
| "class_of ParseResponseFailed = MalformedXML"
| "class_of ParseAuthnRequestFailed = MalformedXML"
| "class_of ParseAssertionFailed = MalformedXML"
| "class_of ParseHARFailed = UnsupportedDocument"

text \<open>\<open>decodeWithPaddingFix\<close>\<close>

definition decodeWithPaddingFix :: "string \<Rightarrow> string option" where
  "decodeWithPaddingFix input =
     (let padded = (if length input mod 4 = 2 then input @ ''==''
                    else if length input mod 4 = 3 then input @ ''=''
                    else input)
      in case DecodeString StdEncoding padded of
           Some decoded \<Rightarrow> Some decoded
         | None \<Rightarrow> DecodeString RawStdEncoding input)"

text \<open>\<open>Decoder.Decode\<close>\<close>

definition Decode :: "string \<Rightarrow> error + string" where
  "Decode input =
     (let cleaned = removeAllByte (CHR 0x0A) input;
          cleaned = removeAllByte (CHR 0x0D) cleaned;
          cleaned = removeAllByte (CHR '' '') cleaned;
          cleaned = TrimSpace cleaned
      in case DecodeString StdEncoding cleaned of
           Some decoded \<Rightarrow> Inr decoded
         | None \<Rightarrow>
       (case DecodeString URLEncoding cleaned of
           Some decoded \<Rightarrow> Inr decoded
         | None \<Rightarrow>
       (case decodeWithPaddingFix cleaned of
           Some decoded \<Rightarrow> Inr decoded
         | None \<Rightarrow>
       (case QueryUnescape cleaned of
           None \<Rightarrow> Inl Base64DecodeFailed
         | Some urlDecoded \<Rightarrow>
             if urlDecoded \<noteq> cleaned then
               (case DecodeString StdEncoding urlDecoded of
                  Some decoded \<Rightarrow> Inr decoded
                | None \<Rightarrow>
                    (case decodeWithPaddingFix urlDecoded of
                       Some decoded \<Rightarrow> Inr decoded
                     | None \<Rightarrow> Inl Base64DecodeFailed))
             else Inl Base64DecodeFailed))))"

text \<open>\<open>Decoder.Encode\<close>\<close>

definition Encode :: "string \<Rightarrow> string" where
  "Encode data = EncodeToString encodeStd data"

text \<open>
  \<open>compress/flate\<close> is outside the package and is a parameter of the model: what reading
  a raw DEFLATE stream to its end returns (\<open>None\<close> for an error of the reader), and
  what the writer at the default compression level has written when it is closed (\<open>None\<close>
  for an error of the writer).
\<close>

record flate =
  inflate_stream :: "string \<Rightarrow> string option"
  deflate_stream :: "string \<Rightarrow> string option"

text \<open>\<open>Decoder.inflate\<close>; \<open>None\<close> is the reader's error, returned unwrapped.\<close>

definition inflate :: "flate \<Rightarrow> string \<Rightarrow> string option" where
  "inflate fl data = inflate_stream fl data"

text \<open>\<open>Decoder.DecodeDeflate\<close>\<close>

definition DecodeDeflate :: "flate \<Rightarrow> string \<Rightarrow> error + string" where
  "DecodeDeflate fl input =
     (case Decode input of
        Inl err \<Rightarrow> Inl err
      | Inr decoded \<Rightarrow>
          (case inflate fl decoded of
             None \<Rightarrow> Inl DeflateDecompressionFailed
           | Some inflated \<Rightarrow> Inr inflated))"

text \<open>\<open>Decoder.Deflate\<close> and \<open>Decoder.EncodeDeflate\<close>\<close>

definition Deflate :: "flate \<Rightarrow> string \<Rightarrow> error + string" where
  "Deflate fl data =
     (case deflate_stream fl data of None \<Rightarrow> Inl DeflateFailed | Some buf \<Rightarrow> Inr buf)"

definition EncodeDeflate :: "flate \<Rightarrow> string \<Rightarrow> error + string" where
  "EncodeDeflate fl data =
     (case Deflate fl data of Inl err \<Rightarrow> Inl err | Inr deflated \<Rightarrow> Inr (Encode deflated))"

text \<open>\<open>isBase64Char\<close> and \<open>IsBase64Encoded\<close>. The source ranges over the runes of the
  string; a rune beyond ASCII is made of bytes beyond ASCII and an invalid byte is read as
  U+FFFD, so the test fails on the runes exactly when it fails on the bytes.\<close>

definition isBase64Char :: "char \<Rightarrow> bool" where
  "isBase64Char r = (let n = (of_char r :: nat)
     in (65 \<le> n \<and> n \<le> 90) \<or> (97 \<le> n \<and> n \<le> 122) \<or> (48 \<le> n \<and> n \<le> 57)
        \<or> r = CHR ''+'' \<or> r = CHR ''/'' \<or> r = CHR ''=''
        \<or> r = CHR ''-'' \<or> r = CHR ''_'')"

definition IsBase64Encoded :: "string \<Rightarrow> bool" where
  "IsBase64Encoded input =
     (let trimmed = TrimSpace input
      in if trimmed = [] then False
         else if hasPrefix trimmed ''<'' then False
         else list_all (\<lambda>r. \<not> (\<not> isBase64Char r \<and> r \<noteq> CHR 0x0A \<and> r \<noteq> CHR 0x0D
                                   \<and> r \<noteq> CHR '' '')) trimmed)"

text \<open>\<open>utf8.Valid\<close>: no overlong form, no surrogate, nothing beyond U+10FFFF.\<close>

definition inRange :: "char \<Rightarrow> nat \<Rightarrow> nat \<Rightarrow> bool" where
  "inRange c lo hi = (lo \<le> of_char c \<and> (of_char c :: nat) \<le> hi)"

fun utf8Valid :: "string \<Rightarrow> bool" where
  "utf8Valid [] = True"
| "utf8Valid (c # cs) =
     (if inRange c 0x00 0x7F then utf8Valid cs
      else if inRange c 0xC2 0xDF then
        (case cs of c1 # r \<Rightarrow> inRange c1 0x80 0xBF \<and> utf8Valid r | _ \<Rightarrow> False)
      else if inRange c 0xE0 0xEF then
        (case cs of
           c1 # c2 # r \<Rightarrow>
             (if c = CHR 0xE0 then inRange c1 0xA0 0xBF
              else if c = CHR 0xED then inRange c1 0x80 0x9F
              else inRange c1 0x80 0xBF)
             \<and> inRange c2 0x80 0xBF \<and> utf8Valid r
         | _ \<Rightarrow> False)
      else if inRange c 0xF0 0xF4 then
        (case cs of
           c1 # c2 # c3 # r \<Rightarrow>
             (if c = CHR 0xF0 then inRange c1 0x90 0xBF
              else if c = CHR 0xF4 then inRange c1 0x80 0x8F
              else inRange c1 0x80 0xBF)
             \<and> inRange c2 0x80 0xBF \<and> inRange c3 0x80 0xBF \<and> utf8Valid r
         | _ \<Rightarrow> False)
      else False)"

text \<open>\<open>Decoder.SmartDecode\<close>\<close>

definition SmartDecode :: "flate \<Rightarrow> string \<Rightarrow> error + string" where
  "SmartDecode fl input =
     (let trimmed = TrimSpace input
      in if \<not> IsBase64Encoded trimmed then Inr trimmed
         else
           (case Decode trimmed of
              Inl err \<Rightarrow> Inl err
            | Inr decoded \<Rightarrow>
                if utf8Valid decoded \<and> length decoded > 0 \<and> decoded ! 0 = CHR ''<''
                then Inr decoded
                else
                  (case inflate fl decoded of
                     Some inflated \<Rightarrow>
                       if utf8Valid inflated \<and> length inflated > 0 \<and> inflated ! 0 = CHR ''<''
                       then Inr inflated
                       else Inr decoded
                   | None \<Rightarrow> Inr decoded)))"

text \<open>
  A value of the library interface to run the model on. It stands in for the library where
  a run does not depend on the codec, and it is not the codec of the library: its writer
  emits the input as one final stored block of a raw DEFLATE stream (the header byte 1, the
  length and its complement in two bytes each, little endian, then the bytes) and fails on
  more bytes than a stored block holds, and its reader reads such a stream back and rejects
  every other one.
\<close>

definition storedFlate :: flate where
  "storedFlate =
     \<lparr>inflate_stream = (\<lambda>z.
        case z of
          h # l0 # l1 # n0 # n1 # rest \<Rightarrow>
            (let len = (of_char l0 :: nat) + 256 * of_char l1;
                 nlen = (of_char n0 :: nat) + 256 * of_char n1
             in if h = CHR 0x01 \<and> len + nlen = 65535 \<and> len \<le> length rest
                then Some (take len rest) else None)
        | _ \<Rightarrow> None),
      deflate_stream = (\<lambda>data.
        if length data \<le> 65535
        then Some ([CHR 0x01, char_of (length data), char_of (length data div 256),
                    char_of (65535 - length data), char_of ((65535 - length data) div 256)]
                   @ data)
        else None)\<rparr>"


section \<open>The standard library's regular expressions\<close>

text \<open>
  \<open>regexp\<close> for the patterns of the package: literals, character classes, greedy
  repetition of a class, an optional part, sequence, alternation and capturing groups.
  The library returns the match a backtracking search finds first, trying the left
  alternative first and the longer repetition first; the matcher below is that search,
  in continuation-passing style. It works on bytes: every class of the patterns is a set
  of ASCII characters or the complement of one, and every multi-byte rune lies in such a
  complement with all its bytes.
\<close>

datatype cls = OneOf string | NoneOf string

fun inClass :: "cls \<Rightarrow> char \<Rightarrow> bool" where
  "inClass (OneOf cs) c = (c \<in> set cs)"
| "inClass (NoneOf cs) c = (c \<notin> set cs)"

datatype re =
    Lit string
  | Cls cls
  | Star cls
  | Plus cls
  | Opt re
  | Seq re re
  | Alt re re
  | Group re

fun star :: "cls \<Rightarrow> string \<Rightarrow> (string \<Rightarrow> 'a option) \<Rightarrow> 'a option" where
  "star cl [] k = k []"
| "star cl (c # cs) k =
     (if inClass cl c
      then (case star cl cs k of Some r \<Rightarrow> Some r | None \<Rightarrow> k (c # cs))
      else k (c # cs))"

text \<open>The captures are collected in the order in which the groups close.\<close>

fun rematch ::
  "re \<Rightarrow> string \<Rightarrow> string list \<Rightarrow> (string \<Rightarrow> string list \<Rightarrow> 'a option) \<Rightarrow> 'a option"
where
  "rematch (Lit l) s caps k = (if hasPrefix s l then k (drop (length l) s) caps else None)"
| "rematch (Cls cl) s caps k =
     (case s of [] \<Rightarrow> None | c # cs \<Rightarrow> if inClass cl c then k cs caps else None)"
| "rematch (Star cl) s caps k = star cl s (\<lambda>s'. k s' caps)"
| "rematch (Plus cl) s caps k =
     (case s of
        [] \<Rightarrow> None
      | c # cs \<Rightarrow> if inClass cl c then star cl cs (\<lambda>s'. k s' caps) else None)"
| "rematch (Opt r) s caps k =
     (case rematch r s caps k of Some x \<Rightarrow> Some x | None \<Rightarrow> k s caps)"
| "rematch (Seq a b) s caps k = rematch a s caps (\<lambda>s' caps'. rematch b s' caps' k)"
| "rematch (Alt a b) s caps k =
     (case rematch a s caps k of Some x \<Rightarrow> Some x | None \<Rightarrow> rematch b s caps k)"
| "rematch (Group a) s caps k =
     rematch a s caps (\<lambda>s' caps'. k s' (caps' @ [take (length s - length s') s]))"

text \<open>
  \<open>Regexp.FindAllStringSubmatch(s, -1)\<close>: the successive matches from left to right, each
  as the matched text followed by its captures; the search for the next match starts
  where the last one ended. The counter is the number of bytes still to skip inside the
  last match. The patterns of the package match no empty string, so no match starts at
  the end of the input.
\<close>

fun FindAllStringSubmatch :: "re \<Rightarrow> nat \<Rightarrow> string \<Rightarrow> string list list" where
  "FindAllStringSubmatch r skip [] = []"
| "FindAllStringSubmatch r (Suc n) (c # cs) = FindAllStringSubmatch r n cs"
| "FindAllStringSubmatch r 0 (c # cs) =
     (case rematch r (c # cs) [] (\<lambda>s' caps. Some (s', caps)) of
        None \<Rightarrow> FindAllStringSubmatch r 0 cs
      | Some (s', caps) \<Rightarrow>
          (take (length (c # cs) - length s') (c # cs) # caps)
          # FindAllStringSubmatch r (length (c # cs) - length s' - 1) cs)"

section \<open>The bulk extractor\<close>

record HARNameValue =
  nv_Name :: string
  nv_Value :: string

record HARContent =
  ct_MimeType :: string
  ct_Text :: string

record HARPostData =
  pd_MimeType :: string
  pd_Text :: string
  pd_Params :: "HARNameValue list"

record HARResponse =
  rs_Content :: HARContent

record HARRequest =
  rq_Method :: string
  rq_URL :: string
  rq_PostData :: "HARPostData option"
  rq_QueryString :: "HARNameValue list"

record HAREntry =
  Request :: HARRequest
  Response :: HARResponse

record HARLog =
  Entries :: "HAREntry list"

record HAR =
  Log :: HARLog

text \<open>\<open>ExtractedSAML\<close>. The index is a Go \<open>int\<close>; it counts results held in memory and
  cannot reach the bound of the type, so it is a natural number here.\<close>

record ExtractedSAML =
  Index :: nat
  Type :: string
  Source :: string
  URL :: string
  ParameterName :: string
  RawValue :: string
  DecodedXML :: string
  WasDeflated :: bool

text \<open>
  What the extractor takes from outside the package: \<open>json.Unmarshal\<close> into a \<open>HAR\<close>
  (\<open>None\<close> for an error); \<open>url.Parse\<close> followed by \<open>URL.Query\<close> (\<open>None\<close> when the URL does
  not parse) and \<open>url.ParseQuery\<close> (\<open>None\<close> for an error), each giving the keys with their
  values in the order in which \<open>range\<close> visits the map; and the order in which \<open>range\<close>
  visits a map from strings to strings, which the language leaves open.
\<close>

record library =
  json_Unmarshal :: "string \<Rightarrow> HAR option"
  url_Query :: "string \<Rightarrow> (string \<times> string list) list option"
  url_ParseQuery :: "string \<Rightarrow> (string \<times> string list) list option"
  map_range :: "(string \<times> string) list \<Rightarrow> (string \<times> string) list"

text \<open>
  \<open>strings.ToLower\<close>, as far as a comparison with an ASCII string can tell: an ASCII
  capital becomes its small letter; U+0130 and U+212A, the two code points beyond ASCII
  whose lower case is an ASCII letter, become \<open>i\<close> and \<open>k\<close>; every other byte beyond ASCII
  belongs to a rune whose lower case is beyond ASCII, and is left as it is.
\<close>

definition lowerByte :: "char \<Rightarrow> char" where
  "lowerByte c = (if 65 \<le> (of_char c :: nat) \<and> (of_char c :: nat) \<le> 90
                  then char_of ((of_char c :: nat) + 32) else c)"

fun ToLower :: "string \<Rightarrow> string" where
  "ToLower [] = []"
| "ToLower (c # cs) =
     (if c = CHR 0xC4 then
        (case cs of
           d # ds \<Rightarrow> if d = CHR 0xB0 then CHR ''i'' # ToLower ds else c # ToLower cs
         | [] \<Rightarrow> [c])
      else if c = CHR 0xE2 then
        (case cs of
           d # e # es \<Rightarrow>
             if d = CHR 0x84 \<and> e = CHR 0xAA then CHR ''k'' # ToLower es else c # ToLower cs
         | _ \<Rightarrow> c # ToLower cs)
      else lowerByte c # ToLower cs)"

text \<open>\<open>isSAMLParameter\<close>\<close>

definition samlParams :: "string list" where
  "samlParams = [''samlresponse'', ''samlrequest'', ''samlassertion'', ''samlart'',
                 ''logoutrequest'', ''logoutresponse'']"

definition isSAMLParameter :: "string \<Rightarrow> bool" where
  "isSAMLParameter name = (let lowerName = ToLower name in list_ex (\<lambda>param. lowerName = param) samlParams)"

text \<open>\<open>looksLikeXML\<close>, \<open>isSAMLXML\<close> and \<open>detectSAMLType\<close>\<close>

definition looksLikeXML :: "string \<Rightarrow> bool" where
  "looksLikeXML data =
     (let trimmed = TrimSpace data in hasPrefix trimmed ''<?xml'' \<or> hasPrefix trimmed ''<'')"

definition samlIndicators :: "string list" where
  "samlIndicators =
     [''samlp:Response'', ''saml2p:Response'', ''samlp:AuthnRequest'', ''saml2p:AuthnRequest'',
      ''saml:Assertion'', ''saml2:Assertion'', ''urn:oasis:names:tc:SAML'', ''<Response'',
      ''<AuthnRequest'', ''<Assertion'', ''<LogoutRequest'', ''<LogoutResponse'']"

definition isSAMLXML :: "string \<Rightarrow> bool" where
  "isSAMLXML data = list_ex (\<lambda>indicator. contains data indicator) samlIndicators"

definition typeChecks :: "(string \<times> string list) list" where
  "typeChecks =
     [(''Response'', [''samlp:Response'', ''saml2p:Response'', ''<Response '']),
      (''AuthnRequest'', [''samlp:AuthnRequest'', ''saml2p:AuthnRequest'', ''<AuthnRequest '']),
      (''LogoutRequest'', [''samlp:LogoutRequest'', ''saml2p:LogoutRequest'', ''<LogoutRequest '']),
      (''LogoutResponse'',
         [''samlp:LogoutResponse'', ''saml2p:LogoutResponse'', ''<LogoutResponse '']),
      (''Assertion'', [''saml:Assertion'', ''saml2:Assertion'', ''<Assertion ''])]"

text \<open>The two nested loops over the table: the first check one of whose indicators
  occurs returns its type name.\<close>

fun detectLoop :: "(string \<times> string list) list \<Rightarrow> string \<Rightarrow> string" where
  "detectLoop [] content = ''Unknown''"
| "detectLoop ((typeName, indicators) # checks) content =
     (if list_ex (\<lambda>indicator. contains content indicator) indicators then typeName
      else detectLoop checks content)"

definition detectSAMLType :: "string \<Rightarrow> string" where
  "detectSAMLType data = detectLoop typeChecks data"

text \<open>\<open>tryExtractSAML\<close>. The counter behind the pointer is passed in and returned.\<close>

definition tryExtractSAML ::
  "flate \<Rightarrow> string \<Rightarrow> string \<Rightarrow> string \<Rightarrow> string \<Rightarrow> nat \<Rightarrow> ExtractedSAML option \<times> nat"
where
  "tryExtractSAML fl value0 paramName requestURL source index =
     (if value0 = [] then (None, index)
      else
        let value = (case QueryUnescape value0 of
                       Some decoded \<Rightarrow> if decoded \<noteq> value0 then decoded else value0
                     | None \<Rightarrow> value0)
        in case Decode value of
             Inl err \<Rightarrow> (None, index)
           | Inr xmlData0 \<Rightarrow>
               (case (if \<not> looksLikeXML xmlData0
                      then (case DecodeDeflate fl value of
                              Inl err \<Rightarrow> None
                            | Inr xmlData \<Rightarrow> Some (xmlData, True))
                      else Some (xmlData0, False)) of
                  None \<Rightarrow> (None, index)
                | Some (xmlData, wasDeflated) \<Rightarrow>
                    if \<not> isSAMLXML xmlData then (None, index)
                    else
                      (Some \<lparr>Index = index, Type = detectSAMLType xmlData, Source = source,
                             URL = requestURL, ParameterName = paramName, RawValue = value,
                             DecodedXML = xmlData, WasDeflated = wasDeflated\<rparr>,
                       index + 1)))"

text \<open>The loop every scan runs over its candidates, a parameter name with a value each:
  a candidate that yields a result appends it.\<close>

fun tryAll ::
  "flate \<Rightarrow> (string \<times> string) list \<Rightarrow> string \<Rightarrow> string \<Rightarrow> nat \<Rightarrow> ExtractedSAML list \<times> nat"
where
  "tryAll fl [] requestURL source index = ([], index)"
| "tryAll fl ((paramName, value) # cands) requestURL source index =
     (case tryExtractSAML fl value paramName requestURL source index of
        (None, index') \<Rightarrow> tryAll fl cands requestURL source index'
      | (Some extracted, index') \<Rightarrow>
          (case tryAll fl cands requestURL source index' of
             (results, index'') \<Rightarrow> (extracted # results, index'')))"

text \<open>\<open>extractFromQueryParams\<close>\<close>

definition extractFromQueryParams ::
  "library \<Rightarrow> flate \<Rightarrow> HARNameValue list \<Rightarrow> string \<Rightarrow> nat \<Rightarrow> ExtractedSAML list \<times> nat"
where
  "extractFromQueryParams lib fl params requestURL index =
     (case (case url_Query lib requestURL of
              Some query \<Rightarrow>
                tryAll fl
                  (concat (map (\<lambda>(key, values).
                     concat (map (\<lambda>value. if isSAMLParameter key then [(key, value)] else [])
                       values)) query))
                  requestURL ''request-query'' index
            | None \<Rightarrow> ([], index)) of
        (results1, index1) \<Rightarrow>
          (case tryAll fl
                  (concat (map (\<lambda>param.
                     if isSAMLParameter (nv_Name param) then [(nv_Name param, nv_Value param)]
                     else []) params))
                  requestURL ''request-query'' index1 of
             (results2, index2) \<Rightarrow> (results1 @ results2, index2)))"

text \<open>\<open>extractFromPostData\<close>\<close>

definition extractFromPostData ::
  "library \<Rightarrow> flate \<Rightarrow> HARPostData \<Rightarrow> string \<Rightarrow> nat \<Rightarrow> ExtractedSAML list \<times> nat"
where
  "extractFromPostData lib fl postData requestURL index =
     (case tryAll fl
             (concat (map (\<lambda>param.
                if isSAMLParameter (nv_Name param) then [(nv_Name param, nv_Value param)]
                else []) (pd_Params postData)))
             requestURL ''request-body'' index of
        (results1, index1) \<Rightarrow>
          (case (if contains (pd_MimeType postData) ''application/x-www-form-urlencoded''
                 then (case url_ParseQuery lib (pd_Text postData) of
                         Some values \<Rightarrow>
                           tryAll fl
                             (concat (map (\<lambda>(key, vals).
                                if isSAMLParameter key then map (\<lambda>val. (key, val)) vals
                                else []) values))
                             requestURL ''request-body'' index1
                       | None \<Rightarrow> ([], index1))
                 else ([], index1)) of
             (results2, index2) \<Rightarrow>
               (case tryAll fl [([], pd_Text postData)] requestURL ''request-body'' index2 of
                  (results3, index3) \<Rightarrow> (results1 @ results2 @ results3, index3))))"

text \<open>\<open>extractSAMLFromHTML\<close>. The result is a Go map, kept as an association list with
  one entry for a key; an assignment to a key replaces its value.\<close>

definition quotes :: string where
  "quotes = [CHR 0x22, CHR 0x27]"

definition samlNames :: re where
  "samlNames = Alt (Lit ''SAMLResponse'') (Alt (Lit ''SAMLRequest'') (Lit ''SAMLAssertion''))"

fun seq :: "re list \<Rightarrow> re" where
  "seq [] = Lit []"
| "seq [r] = r"
| "seq (r # rs) = Seq r (seq rs)"

definition patterns :: "re list" where
  "patterns =
     [seq [Lit ''<input'', Star (NoneOf ''>''), Lit ''name='', Opt (Cls (OneOf quotes)),
           Group samlNames, Opt (Cls (OneOf quotes)), Star (NoneOf ''>''), Lit ''value='',
           Cls (OneOf quotes), Group (Plus (NoneOf quotes)), Cls (OneOf quotes)],
      seq [Lit ''<input'', Star (NoneOf ''>''), Lit ''value='', Cls (OneOf quotes),
           Group (Plus (NoneOf quotes)), Cls (OneOf quotes), Star (NoneOf ''>''),
           Lit ''name='', Opt (Cls (OneOf quotes)), Group samlNames,
           Opt (Cls (OneOf quotes))]]"

definition storeMatch :: "(string \<times> string) list \<Rightarrow> string list \<Rightarrow> (string \<times> string) list" where
  "storeMatch results match =
     (if length match \<ge> 3 then
        (if hasPrefix (match ! 1) ''SAML''
         then AList.update (match ! 1) (match ! 2) results
         else AList.update (match ! 2) (match ! 1) results)
      else results)"

definition extractSAMLFromHTML :: "string \<Rightarrow> (string \<times> string) list" where
  "extractSAMLFromHTML html =
     foldl (\<lambda>results pattern. foldl storeMatch results (FindAllStringSubmatch pattern 0 html))
       [] patterns"

text \<open>\<open>extractFromResponseBody\<close>\<close>

definition extractFromResponseBody ::
  "library \<Rightarrow> flate \<Rightarrow> HARContent \<Rightarrow> string \<Rightarrow> nat \<Rightarrow> ExtractedSAML list \<times> nat"
where
  "extractFromResponseBody lib fl content requestURL index =
     (if ct_Text content = [] then ([], index)
      else
        (case tryAll fl (map_range lib (extractSAMLFromHTML (ct_Text content)))
                requestURL ''response-body'' index of
           (results1, index1) \<Rightarrow>
             (case tryAll fl [([], ct_Text content)] requestURL ''response-body'' index1 of
                (results2, index2) \<Rightarrow> (results1 @ results2, index2))))"

text \<open>\<open>ExtractFromHAR\<close>: the loop over the entries, then the function.\<close>

fun extractEntries ::
  "library \<Rightarrow> flate \<Rightarrow> HAREntry list \<Rightarrow> nat \<Rightarrow> ExtractedSAML list \<times> nat"
where
  "extractEntries lib fl [] index = ([], index)"
| "extractEntries lib fl (entry # entries) index =
     (case extractFromQueryParams lib fl (rq_QueryString (Request entry))
             (rq_URL (Request entry)) index of
        (fromQuery, index1) \<Rightarrow>
          (case (case rq_PostData (Request entry) of
                   Some postData \<Rightarrow>
                     extractFromPostData lib fl postData (rq_URL (Request entry)) index1
                 | None \<Rightarrow> ([], index1)) of
             (fromPost, index2) \<Rightarrow>
               (case extractFromResponseBody lib fl (rs_Content (Response entry))
                       (rq_URL (Request entry)) index2 of
                  (fromResponse, index3) \<Rightarrow>
                    (case extractEntries lib fl entries index3 of
                       (results, index4) \<Rightarrow>
                         (fromQuery @ fromPost @ fromResponse @ results, index4)))))"

definition ExtractFromHAR :: "library \<Rightarrow> flate \<Rightarrow> string \<Rightarrow> error + ExtractedSAML list" where
  "ExtractFromHAR lib fl data =
     (case json_Unmarshal lib data of
        None \<Rightarrow> Inl ParseHARFailed
      | Some har \<Rightarrow> Inr (fst (extractEntries lib fl (Entries (Log har)) 1)))"

section \<open>The structural parser\<close>

text \<open>The structures the XML is unmarshalled into. A nested anonymous structure of the
  source is flattened into the fields of its parent.\<close>

record xmldsigSignature =
  sig_SignatureMethodAlgorithm :: string
  sig_DigestMethodAlgorithm :: string
  sig_X509Certificate :: string

record samlStatus =
  st_StatusCodeValue :: string
  st_StatusMessage :: string

record samlSubject =
  subj_NameIDValue :: string
  subj_NameIDFormat :: string
  subj_NameIDSPNameQualifier :: string

record samlConditions =
  cond_NotBefore :: string
  cond_NotOnOrAfter :: string
  cond_Audiences :: "string list"

record samlAuthnStatement =
  stmt_AuthnInstant :: string
  stmt_SessionIndex :: string
  stmt_SessionNotOnOrAfter :: string
  stmt_AuthnContextClassRef :: string

record samlAttribute =
  sattr_Name :: string
  sattr_FriendlyName :: string
  sattr_NameFormat :: string
  sattr_Values :: "string list"

record samlAssertion =
  asrt_ID :: string
  asrt_IssueInstant :: string
  asrt_Issuer :: string
  asrt_Subject :: "samlSubject option"
  asrt_Conditions :: "samlConditions option"
  asrt_AuthnStatement :: "samlAuthnStatement option"
  asrt_AttributeStatement :: "samlAttribute list option"
  asrt_Signature :: "xmldsigSignature option"

record samlResponse =
  resp_ID :: string
  resp_IssueInstant :: string
  resp_Destination :: string
  resp_InResponseTo :: string
  resp_Issuer :: string
  resp_Status :: samlStatus
  resp_Assertion :: "samlAssertion option"
  resp_Signature :: "xmldsigSignature option"

record samlNameIDPolicy =
  snip_Format :: string
  snip_AllowCreate :: string
  snip_SPNameQualifier :: string

record samlRequestedAttribute =
  sra_Name :: string
  sra_FriendlyName :: string
  sra_NameFormat :: string
  sra_IsRequired :: string

record samlAuthnRequest =
  req_ID :: string
  req_Version :: string
  req_IssueInstant :: string
  req_Destination :: string
  req_AssertionConsumerServiceURL :: string
  req_ProtocolBinding :: string
  req_ForceAuthn :: string
  req_IsPassive :: string
  req_Issuer :: string
  req_NameIDPolicy :: "samlNameIDPolicy option"
  req_Signature :: "xmldsigSignature option"
  req_Extensions :: "samlRequestedAttribute list option"

text \<open>The normalized record. A \<open>time.Time\<close> is an instant, kept as an integer; a pointer
  field is an option.\<close>

type_synonym Time = int

record CertificateInfo =
  cert_Subject :: string
  cert_Issuer :: string
  cert_NotBefore :: Time
  cert_NotAfter :: Time
  cert_Serial :: string

record SignatureInfo =
  Signed :: bool
  SignatureMethod :: string
  DigestMethod :: string
  sig_CertificateInfo :: "CertificateInfo option"

record Attribute =
  attr_Name :: string
  attr_FriendlyName :: string
  attr_NameFormat :: string
  attr_Values :: "string list"

record AuthnStatement =
  AuthnInstant :: "Time option"
  SessionIndex :: string
  SessionNotOnOrAfter :: "Time option"
  AuthnContextClassRef :: string

record Conditions =
  NotBefore :: "Time option"
  NotOnOrAfter :: "Time option"
  AudienceRestriction :: "string list"

record Subject =
  NameID :: string
  NameIDFormat :: string
  SPNameQualifier :: string

record Status =
  StatusCode :: string
  StatusMessage :: string

record RequestedAttribute =
  ra_Name :: string
  ra_FriendlyName :: string
  ra_NameFormat :: string
  ra_IsRequired :: "bool option"

record NameIDPolicy =
  nip_Format :: string
  nip_AllowCreate :: "bool option"
  nip_SPNameQualifier :: string

text \<open>\<open>SAMLInfo\<close> refers to itself through its \<open>Assertion\<close> field, so it is a datatype;
  its fields are in the order of the source.\<close>

datatype SAMLInfo = SAMLInfo
  (info_Type: string)
  (info_ID: string)
  (info_IssueInstant: "Time option")
  (info_Destination: string)
  (info_InResponseTo: string)
  (info_Status: "Status option")
  (info_Issuer: string)
  (info_Subject: "Subject option")
  (info_Conditions: "Conditions option")
  (info_AuthnStatement: "AuthnStatement option")
  (info_Attributes: "Attribute list")
  (info_Signature: "SignatureInfo option")
  (info_Assertion: "SAMLInfo option")
  (info_AssertionConsumerServiceURL: string)
  (info_ProtocolBinding: string)
  (info_ForceAuthn: "bool option")
  (info_IsPassive: "bool option")
  (info_NameIDPolicy: "NameIDPolicy option")
  (info_RequestedAttributes: "RequestedAttribute list")

text \<open>
  What the parser takes from outside the package: \<open>xml.Unmarshal\<close> into each of the three
  document structures (\<open>None\<close> for an error), \<open>time.Parse\<close> with the RFC 3339 layout and
  \<open>x509.ParseCertificate\<close> with the fields the parser reads from the certificate.
\<close>

record xmllib =
  Unmarshal_Response :: "string \<Rightarrow> samlResponse option"
  Unmarshal_AuthnRequest :: "string \<Rightarrow> samlAuthnRequest option"
  Unmarshal_Assertion :: "string \<Rightarrow> samlAssertion option"
  time_Parse :: "string \<Rightarrow> Time option"
  x509_ParseCertificate :: "string \<Rightarrow> CertificateInfo option"

text \<open>\<open>strings.Split\<close> at a one-byte separator, and \<open>extractStatusCode\<close>.\<close>

fun splitByte :: "char \<Rightarrow> string \<Rightarrow> string list" where
  "splitByte sep [] = [[]]"
| "splitByte sep (c # cs) =
     (if c = sep then [] # splitByte sep cs
      else (case splitByte sep cs of p # ps \<Rightarrow> (c # p) # ps | [] \<Rightarrow> [[c]]))"

definition extractStatusCode :: "string \<Rightarrow> string" where
  "extractStatusCode fullCode =
     (let parts = splitByte (CHR '':'') fullCode
      in if length parts > 0 then last parts else fullCode)"

text \<open>The two steps the parser repeats for every instant and every tri-state attribute:
  an empty or unparseable instant leaves the field absent; an empty attribute leaves the
  boolean absent, any other one is compared with \<open>true\<close> in lower case.\<close>

definition parseInstant :: "xmllib \<Rightarrow> string \<Rightarrow> Time option" where
  "parseInstant lib s = (if s \<noteq> [] then time_Parse lib s else None)"

definition triState :: "string \<Rightarrow> bool option" where
  "triState s = (if s \<noteq> [] then Some (ToLower s = ''true'') else None)"

text \<open>\<open>parseSignature\<close>\<close>

definition parseSignature :: "xmllib \<Rightarrow> xmldsigSignature \<Rightarrow> SignatureInfo" where
  "parseSignature lib sig =
     (let sigInfo = \<lparr>Signed = True, SignatureMethod = sig_SignatureMethodAlgorithm sig,
                     DigestMethod = sig_DigestMethodAlgorithm sig, sig_CertificateInfo = None\<rparr>
      in if sig_X509Certificate sig \<noteq> [] then
           (let certData = sig_X509Certificate sig;
                certData = removeAllByte (CHR 0x0A) certData;
                certData = removeAllByte (CHR 0x0D) certData;
                certData = removeAllByte (CHR '' '') certData
            in case DecodeString StdEncoding certData of
                 Some certBytes \<Rightarrow>
                   (case x509_ParseCertificate lib certBytes of
                      Some cert \<Rightarrow> sigInfo\<lparr>sig_CertificateInfo := Some cert\<rparr>
                    | None \<Rightarrow> sigInfo)
               | None \<Rightarrow> sigInfo)
         else sigInfo)"

text \<open>\<open>parseAssertionStruct\<close> and \<open>parseAssertion\<close>\<close>

definition parseAssertionStruct :: "xmllib \<Rightarrow> samlAssertion \<Rightarrow> error + SAMLInfo" where
  "parseAssertionStruct lib assertion =
     Inr (SAMLInfo ''Assertion''
       (asrt_ID assertion)
       (parseInstant lib (asrt_IssueInstant assertion))
       [] []
       None
       (asrt_Issuer assertion)
       (map_option (\<lambda>sub. \<lparr>NameID = subj_NameIDValue sub, NameIDFormat = subj_NameIDFormat sub,
                           SPNameQualifier = subj_NameIDSPNameQualifier sub\<rparr>)
          (asrt_Subject assertion))
       (map_option (\<lambda>c. \<lparr>NotBefore = parseInstant lib (cond_NotBefore c),
                         NotOnOrAfter = parseInstant lib (cond_NotOnOrAfter c),
                         AudienceRestriction = cond_Audiences c\<rparr>)
          (asrt_Conditions assertion))
       (map_option (\<lambda>a. \<lparr>AuthnInstant = parseInstant lib (stmt_AuthnInstant a),
                         SessionIndex = stmt_SessionIndex a,
                         SessionNotOnOrAfter = parseInstant lib (stmt_SessionNotOnOrAfter a),
                         AuthnContextClassRef = stmt_AuthnContextClassRef a\<rparr>)
          (asrt_AuthnStatement assertion))
       (case asrt_AttributeStatement assertion of
          Some attributes \<Rightarrow>
            map (\<lambda>attr. \<lparr>attr_Name = sattr_Name attr, attr_FriendlyName = sattr_FriendlyName attr,
                         attr_NameFormat = sattr_NameFormat attr, attr_Values = sattr_Values attr\<rparr>)
              attributes
        | None \<Rightarrow> [])
       (map_option (parseSignature lib) (asrt_Signature assertion))
       None
       [] [] None None None [])"

definition parseAssertion :: "xmllib \<Rightarrow> string \<Rightarrow> error + SAMLInfo" where
  "parseAssertion lib xmlData =
     (case Unmarshal_Assertion lib xmlData of
        None \<Rightarrow> Inl ParseAssertionFailed
      | Some assertion \<Rightarrow> parseAssertionStruct lib assertion)"

text \<open>The status of a response: present when the status code has a value.\<close>

definition parseStatus :: "samlStatus \<Rightarrow> Status option" where
  "parseStatus st =
     (if st_StatusCodeValue st \<noteq> []
      then Some \<lparr>StatusCode = extractStatusCode (st_StatusCodeValue st),
                 StatusMessage = st_StatusMessage st\<rparr>
      else None)"

text \<open>\<open>parseResponse\<close>\<close>

definition parseResponse :: "xmllib \<Rightarrow> string \<Rightarrow> error + SAMLInfo" where
  "parseResponse lib xmlData =
     (case Unmarshal_Response lib xmlData of
        None \<Rightarrow> Inl ParseResponseFailed
      | Some resp \<Rightarrow>
          (case (case resp_Assertion resp of
                   Some a \<Rightarrow> map_sum id Some (parseAssertionStruct lib a)
                 | None \<Rightarrow> Inr None) of
             Inl err \<Rightarrow> Inl err
           | Inr assertion \<Rightarrow>
               Inr (SAMLInfo ''Response''
                 (resp_ID resp)
                 (parseInstant lib (resp_IssueInstant resp))
                 (resp_Destination resp)
                 (resp_InResponseTo resp)
                 (parseStatus (resp_Status resp))
                 (resp_Issuer resp)
                 None None None []
                 (map_option (parseSignature lib) (resp_Signature resp))
                 assertion
                 [] [] None None None [])))"

text \<open>\<open>parseResponsePartial\<close>\<close>

definition parseResponsePartial :: "xmllib \<Rightarrow> string \<Rightarrow> error + SAMLInfo" where
  "parseResponsePartial lib xmlData =
     (case Unmarshal_Response lib xmlData of
        None \<Rightarrow> Inl ParseResponseFailed
      | Some resp \<Rightarrow>
          Inr (SAMLInfo ''Response (Encrypted)''
            (resp_ID resp)
            (parseInstant lib (resp_IssueInstant resp))
            (resp_Destination resp)
            (resp_InResponseTo resp)
            (parseStatus (resp_Status resp))
            (resp_Issuer resp)
            None None None []
            (map_option (parseSignature lib) (resp_Signature resp))
            None
            [] [] None None None []))"

text \<open>\<open>parseAuthnRequest\<close>\<close>

definition parseAuthnRequest :: "xmllib \<Rightarrow> string \<Rightarrow> error + SAMLInfo" where
  "parseAuthnRequest lib xmlData =
     (case Unmarshal_AuthnRequest lib xmlData of
        None \<Rightarrow> Inl ParseAuthnRequestFailed
      | Some req \<Rightarrow>
          Inr (SAMLInfo ''AuthnRequest''
            (req_ID req)
            (parseInstant lib (req_IssueInstant req))
            (req_Destination req)
            []
            None
            (req_Issuer req)
            None None None []
            (map_option (parseSignature lib) (req_Signature req))
            None
            (req_AssertionConsumerServiceURL req)
            (req_ProtocolBinding req)
            (triState (req_ForceAuthn req))
            (triState (req_IsPassive req))
            (map_option (\<lambda>pol. \<lparr>nip_Format = snip_Format pol,
                                nip_AllowCreate = triState (snip_AllowCreate pol),
                                nip_SPNameQualifier = snip_SPNameQualifier pol\<rparr>)
               (req_NameIDPolicy req))
            (case req_Extensions req of
               Some requested \<Rightarrow>
                 map (\<lambda>attr. \<lparr>ra_Name = sra_Name attr, ra_FriendlyName = sra_FriendlyName attr,
                              ra_NameFormat = sra_NameFormat attr,
                              ra_IsRequired = triState (sra_IsRequired attr)\<rparr>) requested
             | None \<Rightarrow> [])))"

text \<open>\<open>Parse\<close> and \<open>ParsePartial\<close>\<close>

definition Parse :: "xmllib \<Rightarrow> string \<Rightarrow> error + SAMLInfo" where
  "Parse lib xmlData =
     (let trimmed = TrimSpace xmlData
      in if contains trimmed ''<samlp:Response'' \<or> contains trimmed ''<Response''
         then parseResponse lib xmlData
         else if contains trimmed ''<samlp:AuthnRequest'' \<or> contains trimmed ''<AuthnRequest''
         then parseAuthnRequest lib xmlData
         else if contains trimmed ''<saml:Assertion'' \<or> contains trimmed ''<Assertion''
         then parseAssertion lib xmlData
         else
           (case parseResponse lib xmlData of
              Inr info \<Rightarrow> Inr info
            | Inl err \<Rightarrow>
                (case parseAuthnRequest lib xmlData of
                   Inr info \<Rightarrow> Inr info
                 | Inl err \<Rightarrow> parseAssertion lib xmlData)))"

definition ParsePartial :: "xmllib \<Rightarrow> string \<Rightarrow> error + SAMLInfo" where
  "ParsePartial lib xmlData =
     (let trimmed = TrimSpace xmlData
      in if contains trimmed ''<samlp:Response'' \<or> contains trimmed ''<Response''
         then parseResponsePartial lib xmlData
         else Parse lib xmlData)"

section \<open>The two patterns of the form scan, by parts\<close>














section \<open>Notions used in the statements\<close>

text \<open>A printable ASCII character other than the space: no white-space rune starts or ends with one.\<close>

definition printable :: "char \<Rightarrow> bool" where
  "printable c = (33 \<le> (of_char c :: nat) \<and> (of_char c :: nat) \<le> 126)"

text \<open>A character the standard encoder can write.\<close>

definition b64char :: "char \<Rightarrow> bool" where
  "b64char c = (c \<in> set encodeStd \<or> c = CHR ''='')"

text \<open>The results \<open>rs\<close> carry the indices \<open>i\<close>, \<open>i + 1\<close>, ... in order, and \<open>j\<close> is the next free index.\<close>

definition numbered :: "nat \<Rightarrow> ExtractedSAML list \<Rightarrow> nat \<Rightarrow> bool" where
  "numbered i rs j = (j = i + length rs \<and> map Index rs = [i ..< j])"

text \<open>Every result of the list has the given source category and URL.\<close>

definition tagged :: "string \<Rightarrow> string \<Rightarrow> ExtractedSAML list \<Rightarrow> bool" where
  "tagged src u rs = list_all (\<lambda>r. Source r = src \<and> URL r = u) rs"

text \<open>The results of one entry: those of its query parameters, then those of its POST body, then
  those of its response body, all under the URL of the entry.\<close>

definition entryChunk :: "string \<Rightarrow> ExtractedSAML list \<Rightarrow> bool" where
  "entryChunk u c = (\<exists>q p r. c = q @ p @ r \<and> tagged ''request-query'' u q
      \<and> tagged ''request-body'' u p \<and> tagged ''response-body'' u r)"

text \<open>The input of \<open>Decode\<close> after its cleaning steps.\<close>

definition cleanInput :: "string \<Rightarrow> string" where
  "cleanInput input =
     TrimSpace (removeAllByte (CHR '' '') (removeAllByte (CHR 0x0D) (removeAllByte (CHR 0x0A) input)))"

text \<open>The decode strategies in the order in which \<open>Decode\<close> tries them, each with its outcome;
  the last two exist only when percent-decoding changes the cleaned string.\<close>

definition strategies :: "string \<Rightarrow> string option list" where
  "strategies cleaned =
     [DecodeString StdEncoding cleaned, DecodeString URLEncoding cleaned,
      decodeWithPaddingFix cleaned]
     @ (case QueryUnescape cleaned of
          Some urlDecoded \<Rightarrow>
            if urlDecoded \<noteq> cleaned
            then [DecodeString StdEncoding urlDecoded, decodeWithPaddingFix urlDecoded]
            else []
        | None \<Rightarrow> [])"

text \<open>Valid UTF-8 that starts with \<open><\<close>.\<close>

definition xmlShaped :: "string \<Rightarrow> bool" where
  "xmlShaped d = (utf8Valid d \<and> hasPrefix d ''<'')"

text \<open>The smart decode as the specification words it: pass the trimmed input through when it
  starts with \<open><\<close>, decode it otherwise.\<close>

definition SmartDecode_claimed :: "flate \<Rightarrow> string \<Rightarrow> error + string" where
  "SmartDecode_claimed fl input =
     (let t = TrimSpace input
      in if hasPrefix t ''<'' then Inr t
         else (case Decode input of
                 Inl err \<Rightarrow> Inl err
               | Inr decoded \<Rightarrow>
                   if xmlShaped decoded then Inr decoded
                   else (case inflate fl decoded of
                           Some inflated \<Rightarrow> if xmlShaped inflated then Inr inflated else Inr decoded
                         | None \<Rightarrow> Inr decoded)))"






section \<open>Sample inputs\<close>

text \<open>
  Concrete inputs to run the model on. The two values are the base64 encodings of an
  \<open>AuthnRequest\<close> and of a \<open>Response\<close>. The library instance knows two capture documents:
  one with a redirect whose URL and query array both carry the request, one with the same
  redirect followed by a POST that carries the response. A second library instance knows a
  capture whose one entry carries the request and the response, both in its URL and in its
  query array; it comes in the two orders in which the map of the URL query can be ranged
  over. The XML library instance knows a response with an encrypted assertion and one with
  a plain assertion, and rejects every other document; a second one knows the same two
  responses written with the prefix \<open>saml2p\<close>, which \<open>xml.Unmarshal\<close> reads into the same
  structure, the element being matched by its local name.
\<close>

definition sampleRequestValue :: string where
  "sampleRequestValue = ''PEF1dGhuUmVxdWVzdCBJRD0iYSIvPg==''"

definition sampleResponseValue :: string where
  "sampleResponseValue = ''PHNhbWxwOlJlc3BvbnNlLz4=''"

definition sampleSSOURL :: string where
  "sampleSSOURL = ''https://idp.example.com/sso?SAMLRequest=PEF1dGhuUmVxdWVzdCBJRD0iYSIvPg%3D%3D''"

definition sampleACSURL :: string where
  "sampleACSURL = ''https://sp.example.com/acs''"

definition sampleRedirect :: HAREntry where
  "sampleRedirect =
     \<lparr>Request = \<lparr>rq_Method = ''GET'', rq_URL = sampleSSOURL, rq_PostData = None,
                  rq_QueryString = [\<lparr>nv_Name = ''SAMLRequest'', nv_Value = sampleRequestValue\<rparr>]\<rparr>,
      Response = \<lparr>rs_Content = \<lparr>ct_MimeType = ''text/html'', ct_Text = []\<rparr>\<rparr>\<rparr>"

definition samplePost :: HAREntry where
  "samplePost =
     \<lparr>Request = \<lparr>rq_Method = ''POST'', rq_URL = sampleACSURL,
                  rq_PostData = Some \<lparr>pd_MimeType = ''multipart/form-data'', pd_Text = [],
                     pd_Params = [\<lparr>nv_Name = ''SAMLResponse'', nv_Value = sampleResponseValue\<rparr>]\<rparr>,
                  rq_QueryString = []\<rparr>,
      Response = \<lparr>rs_Content = \<lparr>ct_MimeType = ''text/html'', ct_Text = []\<rparr>\<rparr>\<rparr>"

definition sampleLibrary :: library where
  "sampleLibrary =
     \<lparr>json_Unmarshal = (\<lambda>data.
        if data = ''capture: redirect'' then Some \<lparr>Log = \<lparr>Entries = [sampleRedirect]\<rparr>\<rparr>
        else if data = ''capture: redirect, post''
        then Some \<lparr>Log = \<lparr>Entries = [sampleRedirect, samplePost]\<rparr>\<rparr>
        else None),
      url_Query = (\<lambda>u.
        if u = sampleSSOURL then Some [(''SAMLRequest'', [sampleRequestValue])] else Some []),
      url_ParseQuery = (\<lambda>text. if text = [] then Some [] else None),
      map_range = (\<lambda>m. m)\<rparr>"

definition sampleEncryptedXML :: string where
  "sampleEncryptedXML =
     ''<samlp:Response ID='' @ [CHR 0x22] @ ''_r1'' @ [CHR 0x22] @ ''><saml:Issuer>idp</saml:Issuer>''
     @ ''<samlp:Status><samlp:StatusCode Value='' @ [CHR 0x22]
     @ ''urn:oasis:names:tc:SAML:2.0:status:Success'' @ [CHR 0x22] @ ''/></samlp:Status>''
     @ ''<saml:EncryptedAssertion/></samlp:Response>''"

definition sampleEncrypted :: samlResponse where
  "sampleEncrypted =
     \<lparr>resp_ID = ''_r1'', resp_IssueInstant = [], resp_Destination = [], resp_InResponseTo = [],
      resp_Issuer = ''idp'',
      resp_Status = \<lparr>st_StatusCodeValue = ''urn:oasis:names:tc:SAML:2.0:status:Success'',
                      st_StatusMessage = []\<rparr>,
      resp_Assertion = None, resp_Signature = None\<rparr>"

definition samplePlainXML :: string where
  "samplePlainXML =
     ''<Response ID='' @ [CHR 0x22] @ ''_r2'' @ [CHR 0x22] @ ''><Assertion ID='' @ [CHR 0x22]
     @ ''_a1'' @ [CHR 0x22] @ ''/></Response>''"

definition samplePlain :: samlResponse where
  "samplePlain =
     \<lparr>resp_ID = ''_r2'', resp_IssueInstant = [], resp_Destination = [], resp_InResponseTo = [],
      resp_Issuer = [],
      resp_Status = \<lparr>st_StatusCodeValue = [], st_StatusMessage = []\<rparr>,
      resp_Assertion = Some \<lparr>asrt_ID = ''_a1'', asrt_IssueInstant = [], asrt_Issuer = [],
         asrt_Subject = None, asrt_Conditions = None, asrt_AuthnStatement = None,
         asrt_AttributeStatement = None, asrt_Signature = None\<rparr>,
      resp_Signature = None\<rparr>"

definition sampleXmllib :: xmllib where
  "sampleXmllib =
     \<lparr>Unmarshal_Response = (\<lambda>data.
        if data = sampleEncryptedXML then Some sampleEncrypted
        else if data = samplePlainXML then Some samplePlain
        else None),
      Unmarshal_AuthnRequest = (\<lambda>data. None),
      Unmarshal_Assertion = (\<lambda>data. None),
      time_Parse = (\<lambda>s. None),
      x509_ParseCertificate = (\<lambda>der. None)\<rparr>"

definition sampleTwoURL :: string where
  "sampleTwoURL = ''https://idp.example.com/sso?SAMLRequest=PEF1dGhuUmVxdWVzdCBJRD0iYSIvPg%3D%3D''
     @ ''&SAMLResponse=PHNhbWxwOlJlc3BvbnNlLz4%3D''"

definition sampleTwo :: HAREntry where
  "sampleTwo =
     \<lparr>Request = \<lparr>rq_Method = ''GET'', rq_URL = sampleTwoURL, rq_PostData = None,
                  rq_QueryString = [\<lparr>nv_Name = ''SAMLRequest'', nv_Value = sampleRequestValue\<rparr>,
                                    \<lparr>nv_Name = ''SAMLResponse'', nv_Value = sampleResponseValue\<rparr>]\<rparr>,
      Response = \<lparr>rs_Content = \<lparr>ct_MimeType = ''text/html'', ct_Text = []\<rparr>\<rparr>\<rparr>"

definition sampleTwoLibrary :: library where
  "sampleTwoLibrary =
     \<lparr>json_Unmarshal = (\<lambda>data.
        if data = ''capture: two parameters'' then Some \<lparr>Log = \<lparr>Entries = [sampleTwo]\<rparr>\<rparr>
        else None),
      url_Query = (\<lambda>u.
        if u = sampleTwoURL
        then Some [(''SAMLRequest'', [sampleRequestValue]), (''SAMLResponse'', [sampleResponseValue])]
        else Some []),
      url_ParseQuery = (\<lambda>text. if text = [] then Some [] else None),
      map_range = (\<lambda>m. m)\<rparr>"

definition sampleTwoLibraryRev :: library where
  "sampleTwoLibraryRev =
     sampleTwoLibrary\<lparr>url_Query := (\<lambda>u.
        if u = sampleTwoURL
        then Some [(''SAMLResponse'', [sampleResponseValue]), (''SAMLRequest'', [sampleRequestValue])]
        else Some [])\<rparr>"

definition sampleRequestResult :: ExtractedSAML where
  "sampleRequestResult =
     \<lparr>Index = 1, Type = ''AuthnRequest'', Source = ''request-query'', URL = sampleTwoURL,
      ParameterName = ''SAMLRequest'', RawValue = sampleRequestValue,
      DecodedXML = ''<AuthnRequest ID='' @ [CHR 0x22] @ ''a'' @ [CHR 0x22] @ ''/>'',
      WasDeflated = False\<rparr>"

definition sampleResponseResult :: ExtractedSAML where
  "sampleResponseResult =
     \<lparr>Index = 1, Type = ''Response'', Source = ''request-query'', URL = sampleTwoURL,
      ParameterName = ''SAMLResponse'', RawValue = sampleResponseValue,
      DecodedXML = ''<samlp:Response/>'', WasDeflated = False\<rparr>"

definition sampleSaml2pEncryptedXML :: string where
  "sampleSaml2pEncryptedXML =
     ''<saml2p:Response xmlns:saml2p='' @ [CHR 0x22] @ ''urn:oasis:names:tc:SAML:2.0:protocol''
     @ [CHR 0x22] @ '' xmlns:saml2='' @ [CHR 0x22] @ ''urn:oasis:names:tc:SAML:2.0:assertion''
     @ [CHR 0x22] @ '' ID='' @ [CHR 0x22] @ ''_r3'' @ [CHR 0x22]
     @ ''><saml2:Issuer>idp</saml2:Issuer>''
     @ ''<saml2p:Status><saml2p:StatusCode Value='' @ [CHR 0x22]
     @ ''urn:oasis:names:tc:SAML:2.0:status:Success'' @ [CHR 0x22] @ ''/></saml2p:Status>''
     @ ''<saml2:EncryptedAssertion/></saml2p:Response>''"

definition sampleSaml2pEncrypted :: samlResponse where
  "sampleSaml2pEncrypted =
     \<lparr>resp_ID = ''_r3'', resp_IssueInstant = [], resp_Destination = [], resp_InResponseTo = [],
      resp_Issuer = ''idp'',
      resp_Status = \<lparr>st_StatusCodeValue = ''urn:oasis:names:tc:SAML:2.0:status:Success'',
                      st_StatusMessage = []\<rparr>,
      resp_Assertion = None, resp_Signature = None\<rparr>"

definition sampleSaml2pPlainXML :: string where
  "sampleSaml2pPlainXML =
     ''<saml2p:Response xmlns:saml2p='' @ [CHR 0x22] @ ''urn:oasis:names:tc:SAML:2.0:protocol''
     @ [CHR 0x22] @ '' xmlns:saml2='' @ [CHR 0x22] @ ''urn:oasis:names:tc:SAML:2.0:assertion''
     @ [CHR 0x22] @ '' ID='' @ [CHR 0x22] @ ''_r4'' @ [CHR 0x22] @ ''><saml2:Assertion ID=''
     @ [CHR 0x22] @ ''_a2'' @ [CHR 0x22] @ ''/></saml2p:Response>''"

definition sampleSaml2pPlain :: samlResponse where
  "sampleSaml2pPlain =
     \<lparr>resp_ID = ''_r4'', resp_IssueInstant = [], resp_Destination = [], resp_InResponseTo = [],
      resp_Issuer = [],
      resp_Status = \<lparr>st_StatusCodeValue = [], st_StatusMessage = []\<rparr>,
      resp_Assertion = Some \<lparr>asrt_ID = ''_a2'', asrt_IssueInstant = [], asrt_Issuer = [],
         asrt_Subject = None, asrt_Conditions = None, asrt_AuthnStatement = None,
         asrt_AttributeStatement = None, asrt_Signature = None\<rparr>,
      resp_Signature = None\<rparr>"

definition sampleSaml2pXmllib :: xmllib where
  "sampleSaml2pXmllib =
     \<lparr>Unmarshal_Response = (\<lambda>data.
        if data = sampleSaml2pEncryptedXML then Some sampleSaml2pEncrypted
        else if data = sampleSaml2pPlainXML then Some sampleSaml2pPlain
        else None),
      Unmarshal_AuthnRequest = (\<lambda>data. None),
      Unmarshal_Assertion = (\<lambda>data. None),
      time_Parse = (\<lambda>s. None),
      x509_ParseCertificate = (\<lambda>der. None)\<rparr>"



section \<open>Properties of the codec\<close>

subsection \<open>Evaluating the model on literals\<close>

lemma char_of_eq_nat:
  "(char_of (n::nat) = c) = (n mod 256 = of_char c)"
  "(c = char_of (n::nat)) = (n mod 256 = of_char c)"
  using char_of_eq_iff [of n c] by (auto simp: take_bit_eq_mod)

lemmas ev = char_of_eq_nat DecodeString_def StdEncoding_def URLEncoding_def
  RawStdEncoding_def encodeStd_def encodeURL_def isNewline_def leadingSpace_def
  trailingSpace_def unicodeSpaces_def hasSuffix_def ishex_def unhex_def

subsection \<open>Decoding what the encoder wrote\<close>

lemma index_of_nth: "distinct al \<Longrightarrow> n < length al \<Longrightarrow> index_of (al ! n) al = Some n"
proof (induction al arbitrary: n)
  case Nil then show ?case by simp
next
  case (Cons x xs)
  show ?case
  proof (cases n)
    case 0 then show ?thesis by simp
  next
    case (Suc m)
    with Cons.prems have "xs ! m \<in> set xs" "x \<notin> set xs" by auto
    then have "xs ! m \<noteq> x" by auto
    with Cons Suc show ?thesis by auto
  qed
qed

lemma distinct_encodeStd: "distinct encodeStd"
  by (simp add: encodeStd_def)
lemma length_encodeStd: "length encodeStd = 64"
  by (simp add: encodeStd_def)

lemma index_of_std: "n < 64 \<Longrightarrow> index_of (encodeStd ! n) encodeStd = Some n"
  by (simp add: index_of_nth distinct_encodeStd length_encodeStd)

lemma sextets_recompose:
  fixes v :: nat
  shows "(v div 262144) * 262144 + (v div 4096 mod 64) * 4096 + (v div 64 mod 64) * 64 + v mod 64 = v"
proof -
  have a: "v div 4096 = v div 64 div 64" by (simp add: div_mult2_eq[symmetric])
  have b: "v div 262144 = v div 64 div 64 div 64" by (simp add: div_mult2_eq[symmetric])
  have 1: "v = (v div 64) * 64 + v mod 64" by simp
  have 2: "v div 64 = (v div 64 div 64) * 64 + v div 64 mod 64" by simp
  have 3: "v div 64 div 64 = (v div 64 div 64 div 64) * 64 + v div 64 div 64 mod 64" by simp
  show ?thesis unfolding a b using 1 2 3 by linarith
qed

lemma div_mult_add: "r < m \<Longrightarrow> (q * m + r) div m = (q::nat)" by simp
lemma mod_mult_add: "r < m \<Longrightarrow> (q * m + r) mod m = (r::nat)" by simp

lemma pack3_bytes:
  fixes a b c :: char
  defines "v \<equiv> (of_char a :: nat) * 65536 + of_char b * 256 + of_char c"
  shows "char_of (v div 65536) = a" "char_of (v div 256) = b" "char_of v = c"
proof -
  have la: "(of_char a :: nat) < 256" and lb: "(of_char b :: nat) < 256" and lc: "(of_char c :: nat) < 256"
    by simp_all
  have "v = of_char a * 65536 + (of_char b * 256 + of_char c)" by (simp add: v_def)
  moreover have "(of_char b :: nat) * 256 + of_char c < 65536" using lb lc by linarith
  ultimately have "v div 65536 = of_char a" by simp
  then show "char_of (v div 65536) = a" by simp
  have v2: "v = (of_char a * 256 + of_char b) * 256 + of_char c" by (simp add: v_def)
  have "v div 256 = of_char a * 256 + of_char b" unfolding v2 by (rule div_mult_add [OF lc])
  then have "char_of (v div 256) = (char_of (of_char a * 256 + of_char b :: nat) :: char)" by simp
  also have "\<dots> = char_of ((of_char a * 256 + of_char b :: nat) mod 256)" by (simp only: char_of_mod_256)
  also have "\<dots> = b" by simp
  finally show "char_of (v div 256) = b" .
  have "char_of v = (char_of (v mod 256) :: char)" by (simp only: char_of_mod_256)
  also have "v mod 256 = of_char c" unfolding v2 by (rule mod_mult_add [OF lc])
  finally show "char_of v = c" by simp
qed

lemma pack_lt: 
  fixes a b c :: char
  shows "(of_char a :: nat) * 65536 + of_char b * 256 + of_char c < 16777216"
proof -
  have "(of_char a :: nat) < 256" "(of_char b :: nat) < 256" "(of_char c :: nat) < 256"
    by simp_all
  then show ?thesis by linarith
qed


lemma pad_not_std: "index_of (CHR ''='') encodeStd = None"
  by (simp add: encodeStd_def)

lemma decode_quantum4:
  assumes "index_of x0 (alphabet enc) = Some d0" "index_of x1 (alphabet enc) = Some d1"
    "index_of x2 (alphabet enc) = Some d2" "index_of x3 (alphabet enc) = Some d3"
  shows "decodeLoop enc [] (x0 # x1 # x2 # x3 # r) =
    map_option (\<lambda>r. quantumBytes [d0, d1, d2, d3] @ r) (decodeLoop enc [] r)"
  using assms by simp

lemma quantum_full:
  fixes a b c :: char
  defines "v \<equiv> (of_char a :: nat) * 65536 + of_char b * 256 + of_char c"
  shows "quantumBytes [v div 262144, v div 4096 mod 64, v div 64 mod 64, v mod 64] = [a, b, c]"
  using pack3_bytes [of a b c] sextets_recompose [of v]
  by (simp add: v_def Let_def)

lemma quantum_two:
  fixes a b :: char
  defines "v \<equiv> (of_char a :: nat) * 65536 + of_char b * 256"
  shows "quantumBytes [v div 262144, v div 4096 mod 64, v div 64 mod 64] = [a, b]"
proof -
  have "v mod 64 = 0" by (simp add: v_def)
  with sextets_recompose [of v]
  have r: "(v div 262144) * 262144 + (v div 4096 mod 64) * 4096 + (v div 64 mod 64) * 64 = v"
    by simp
  have "v = of_char a * 65536 + of_char b * 256 + of_char (CHR 0x00)" by (simp add: v_def)
  with pack3_bytes(1,2) [of a b "CHR 0x00"]
  have "char_of (v div 65536) = a" "char_of (v div 256) = b" by simp_all
  with r show ?thesis by (simp add: Let_def)
qed

lemma quantum_one:
  fixes a :: char
  defines "v \<equiv> (of_char a :: nat) * 65536"
  shows "quantumBytes [v div 262144, v div 4096 mod 64] = [a]"
proof -
  have "v mod 64 = 0" "v div 64 mod 64 = 0" by (simp_all add: v_def)
  with sextets_recompose [of v]
  have r: "(v div 262144) * 262144 + (v div 4096 mod 64) * 4096 = v"
    by simp
  have "v = of_char a * 65536 + of_char (CHR 0x00) * 256 + of_char (CHR 0x00)" by (simp add: v_def)
  with pack3_bytes(1) [of a "CHR 0x00" "CHR 0x00"]
  have "char_of (v div 65536) = a" by simp
  with r show ?thesis by (simp add: Let_def)
qed

lemma sextet0_lt: 
  fixes a b c :: char
  shows "((of_char a :: nat) * 65536 + of_char b * 256 + of_char c) div 262144 < 64"
  using pack_lt [of a b c] by (simp add: less_mult_imp_div_less)

lemma decode_encode_std: "DecodeString StdEncoding (EncodeToString encodeStd B) = Some B"
  unfolding DecodeString_def
proof (induction encodeStd B rule: EncodeToString.induct)
  case 1
  show ?case by simp
next
  case (2 a)
  define v where "v = (of_char a :: nat) * 65536"
  have lt: "v div 262144 < 64" using sextet0_lt [of a "CHR 0x00" "CHR 0x00"] by (simp add: v_def)
  have "decodeLoop StdEncoding [] (EncodeToString encodeStd [a]) =
      Some (quantumBytes [v div 262144, v div 4096 mod 64])"
    using lt by (simp add: v_def [symmetric] Let_def StdEncoding_def index_of_std pad_not_std isNewline_def)
  then show ?case using quantum_one [of a] by (simp add: v_def)
next
  case (3 a b)
  define v where "v = (of_char a :: nat) * 65536 + of_char b * 256"
  have lt: "v div 262144 < 64" using sextet0_lt [of a b "CHR 0x00"] by (simp add: v_def)
  have "decodeLoop StdEncoding [] (EncodeToString encodeStd [a, b]) =
      Some (quantumBytes [v div 262144, v div 4096 mod 64, v div 64 mod 64])"
    using lt by (simp add: v_def [symmetric] Let_def StdEncoding_def index_of_std pad_not_std isNewline_def)
  then show ?case using quantum_two [of a b] by (simp add: v_def)
next
  case (4 a b c rest)
  define v where "v = (of_char a :: nat) * 65536 + of_char b * 256 + of_char c"
  have lt: "v div 262144 < 64" using sextet0_lt [of a b c] by (simp add: v_def)
  have "decodeLoop StdEncoding [] (EncodeToString encodeStd (a # b # c # rest)) =
      map_option (\<lambda>r. quantumBytes [v div 262144, v div 4096 mod 64, v div 64 mod 64, v mod 64] @ r)
        (decodeLoop StdEncoding [] (EncodeToString encodeStd rest))"
    using lt by (simp add: v_def [symmetric] Let_def StdEncoding_def index_of_std del: quantumBytes.simps)
  then show ?case using quantum_full [of a b c] 4 by (simp add: v_def)
qed

lemma spaces_not_printable:
  "list_all (\<lambda>w. w \<noteq> [] \<and> \<not> printable (hd w) \<and> \<not> printable (last w)) unicodeSpaces"
  by code_simp

lemma hasPrefix_hd: "hasPrefix s w \<Longrightarrow> w \<noteq> [] \<Longrightarrow> s \<noteq> [] \<and> hd s = hd w"
  by (induction s w rule: hasPrefix.induct) auto

lemma leadingSpace_printable: "s = [] \<or> printable (hd s) \<Longrightarrow> leadingSpace s = 0"
proof -
  assume a: "s = [] \<or> printable (hd s)"
  have "\<not> hasPrefix s w" if "w \<in> set unicodeSpaces" for w
  proof
    assume h: "hasPrefix s w"
    from that spaces_not_printable have w: "w \<noteq> []" "\<not> printable (hd w)"
      by (auto simp: list_all_iff)
    from hasPrefix_hd [OF h w(1)] a w(2) show False by auto
  qed
  then have "find (hasPrefix s) unicodeSpaces = None" by (simp add: find_None_iff)
  then show ?thesis by (simp add: leadingSpace_def)
qed

lemma trailingSpace_printable: "s = [] \<or> printable (last s) \<Longrightarrow> trailingSpace s = 0"
proof -
  assume a: "s = [] \<or> printable (last s)"
  have "\<not> hasSuffix s w" if "w \<in> set unicodeSpaces" for w
  proof
    assume h: "hasSuffix s w"
    from that spaces_not_printable have w: "w \<noteq> []" "\<not> printable (last w)"
      by (auto simp: list_all_iff)
    from h have "hasPrefix (rev s) (rev w)" by (simp add: hasSuffix_def)
    from hasPrefix_hd [OF this] w(1) have "s \<noteq> []" "hd (rev s) = hd (rev w)" by auto
    with a w show False by (simp add: hd_rev)
  qed
  then have "find (hasSuffix s) unicodeSpaces = None" by (simp add: find_None_iff)
  then show ?thesis by (simp add: trailingSpace_def)
qed

lemma TrimSpace_printable:
  "s = [] \<or> (printable (hd s) \<and> printable (last s)) \<Longrightarrow> TrimSpace s = s"
  by (auto simp: TrimSpace_def trimLeft.simps [of s] trimRight.simps [of s]
      leadingSpace_printable trailingSpace_printable)

lemma std_printable: "list_all printable encodeStd" by code_simp
lemma url_printable: "list_all printable encodeURL" by code_simp

lemma b64char_printable: "b64char c \<Longrightarrow> printable c"
  using std_printable by (auto simp: b64char_def list_all_iff printable_def)

lemma printable_not_ws: "printable c \<Longrightarrow> c \<noteq> CHR 0x0A \<and> c \<noteq> CHR 0x0D \<and> c \<noteq> CHR '' ''"
  by (auto simp: printable_def)

lemma removeAllByte_id: "c \<notin> set s \<Longrightarrow> removeAllByte c s = s"
  by (auto simp: removeAllByte_def filter_id_conv)

lemma nth_std: "n < 64 \<Longrightarrow> b64char (encodeStd ! n)"
  by (simp add: b64char_def length_encodeStd)

lemma encode_chars: "list_all b64char (EncodeToString encodeStd B)"
proof (induction encodeStd B rule: EncodeToString.induct)
  case 1 show ?case by simp
next
  case (2 a)
  have "(of_char a :: nat) * 65536 div 262144 < 64" using sextet0_lt [of a "CHR 0x00" "CHR 0x00"] by simp
  then show ?case by (simp add: Let_def nth_std) (simp add: b64char_def)
next
  case (3 a b)
  have "((of_char a :: nat) * 65536 + of_char b * 256) div 262144 < 64" using sextet0_lt [of a b "CHR 0x00"] by simp
  then show ?case by (simp add: Let_def nth_std) (simp add: b64char_def)
next
  case (4 a b c rest)
  then show ?case using sextet0_lt [of a b c] by (simp add: Let_def nth_std)
qed

lemma clean_encoded:
  assumes "list_all printable s"
  shows "TrimSpace (removeAllByte (CHR '' '') (removeAllByte (CHR 0x0D) (removeAllByte (CHR 0x0A) s))) = s"
proof -
  from assms have "CHR 0x0A \<notin> set s" "CHR 0x0D \<notin> set s" "CHR '' '' \<notin> set s"
    using printable_not_ws by (auto simp: list_all_iff)
  moreover have "s = [] \<or> (printable (hd s) \<and> printable (last s))"
    using assms by (cases s) (auto simp: list_all_iff) 
  ultimately show ?thesis by (simp add: removeAllByte_id TrimSpace_printable)
qed

text \<open>Decoding what \<open>Encode\<close> wrote succeeds and returns the bytes, for every byte sequence.\<close>

lemma Decode_Encode: "Decode (Encode B) = Inr B"
proof -
  have "list_all printable (Encode B)"
    using encode_chars [of B] b64char_printable by (auto simp: list_all_iff Encode_def)
  from clean_encoded [OF this] show ?thesis
    by (simp add: Decode_def Encode_def decode_encode_std)
qed

text \<open>The base64 layer is transparent to the compression: encoding the deflated bytes of
  \<open>B\<close> and then decoding and inflating gives \<open>B\<close> back exactly when the compression
  library reads \<open>B\<close> back from what it wrote for \<open>B\<close>.\<close>

lemma DecodeDeflate_EncodeDeflate:
  "(\<exists>s. EncodeDeflate fl B = Inr s \<and> DecodeDeflate fl s = Inr B)
   = (\<exists>z. deflate_stream fl B = Some z \<and> inflate_stream fl z = Some B)"
  by (auto simp: Decode_Encode EncodeDeflate_def Deflate_def DecodeDeflate_def inflate_def
      split: option.splits sum.splits)

section \<open>The classifier\<close>

lemma detectLoop_find:
  "detectLoop checks d =
     (case find (\<lambda>check. list_ex (\<lambda>indicator. contains d indicator) (snd check)) checks of
        Some check \<Rightarrow> fst check | None \<Rightarrow> ''Unknown'')"
  by (induction checks d rule: detectLoop.induct) auto

text \<open>
  C5: the classifier goes through the priority list Response, AuthnRequest, LogoutRequest,
  LogoutResponse, Assertion and returns the first type one of whose indicators occurs in
  the content, \<open>Unknown\<close> when none occurs; a document with an indicator of the Response
  wrapper is classified as Response whatever else it contains, an Assertion indicator
  included.
\<close>

theorem C5_detect_priority:
  "map fst typeChecks = [''Response'', ''AuthnRequest'', ''LogoutRequest'', ''LogoutResponse'', ''Assertion'']
   \<and> detectSAMLType d =
      (case find (\<lambda>check. list_ex (\<lambda>indicator. contains d indicator) (snd check)) typeChecks of
         Some check \<Rightarrow> fst check | None \<Rightarrow> ''Unknown'')
   \<and> (contains d ''samlp:Response'' \<or> contains d ''saml2p:Response'' \<or> contains d ''<Response ''
        \<longrightarrow> detectSAMLType d = ''Response'' \<and> detectSAMLType d \<noteq> ''Assertion'')"
proof (intro conjI impI)
  show "map fst typeChecks = [''Response'', ''AuthnRequest'', ''LogoutRequest'', ''LogoutResponse'', ''Assertion'']"
    by (simp add: typeChecks_def)
  show "detectSAMLType d =
      (case find (\<lambda>check. list_ex (\<lambda>indicator. contains d indicator) (snd check)) typeChecks of
         Some check \<Rightarrow> fst check | None \<Rightarrow> ''Unknown'')"
    unfolding detectSAMLType_def by (rule detectLoop_find)
  assume "contains d ''samlp:Response'' \<or> contains d ''saml2p:Response'' \<or> contains d ''<Response ''"
  then show r: "detectSAMLType d = ''Response''"
    by (auto simp: detectSAMLType_def typeChecks_def)
  then show "detectSAMLType d \<noteq> ''Assertion''" by simp
qed

theorem C5_detect_priority_witness:
  "contains ''<samlp:Response><saml:Assertion/></samlp:Response>'' ''samlp:Response''
   \<and> contains ''<samlp:Response><saml:Assertion/></samlp:Response>'' ''saml:Assertion''
   \<and> detectSAMLType ''<samlp:Response><saml:Assertion/></samlp:Response>'' = ''Response''"
proof -
  have c1: "contains ''<samlp:Response><saml:Assertion/></samlp:Response>'' ''samlp:Response''"
    by simp
  have c2: "contains ''<samlp:Response><saml:Assertion/></samlp:Response>'' ''saml:Assertion''"
    by simp
  from C5_detect_priority [of "''<samlp:Response><saml:Assertion/></samlp:Response>''"] c1
  have "detectSAMLType ''<samlp:Response><saml:Assertion/></samlp:Response>'' = ''Response''"
    by blast
  with c1 c2 show ?thesis by blast
qed

lemma Decode_Response_lit: "Decode ''PFJlc3BvbnNlLz4='' = Inr ''<Response/>''"
proof -
  have "list_all printable ''PFJlc3BvbnNlLz4=''" by (simp add: printable_def)
  from clean_encoded [OF this] show ?thesis
    by (simp add: Decode_def) (simp add: ev)
qed

text \<open>
  C10: the content \<open><Response/>\<close> passes the acceptance gate and is classified \<open>Unknown\<close>, and
  the extraction of its base64 encoding is accepted with the type \<open>Unknown\<close>.
\<close>

theorem C10_gate_accepts_unknown:
  "isSAMLXML ''<Response/>'' \<and> detectSAMLType ''<Response/>'' = ''Unknown'' \<and>
   tryExtractSAML fl ''PFJlc3BvbnNlLz4='' ''SAMLResponse'' ''https://sp.example.com/acs''
       ''request-body'' 1 =
     (Some \<lparr>Index = 1, Type = ''Unknown'', Source = ''request-body'',
            URL = ''https://sp.example.com/acs'', ParameterName = ''SAMLResponse'',
            RawValue = ''PFJlc3BvbnNlLz4='', DecodedXML = ''<Response/>'',
            WasDeflated = False\<rparr>, 2)"
proof -
  have a: "isSAMLXML ''<Response/>''" by (simp add: isSAMLXML_def samlIndicators_def)
  have b: "detectSAMLType ''<Response/>'' = ''Unknown''"
    by (simp add: detectSAMLType_def typeChecks_def)
  have c: "QueryUnescape ''PFJlc3BvbnNlLz4='' = Some ''PFJlc3BvbnNlLz4=''" by simp
  have d: "looksLikeXML ''<Response/>''"
    by (simp add: looksLikeXML_def TrimSpace_printable printable_def)
  show ?thesis using a b
    by (simp add: tryExtractSAML_def c Decode_Response_lit d)
qed

section \<open>The numbering of the results\<close>

lemma numbered_Nil: "numbered i [] i"
  by (simp add: numbered_def)

lemma numbered_append: "numbered i a j \<Longrightarrow> numbered j b k \<Longrightarrow> numbered i (a @ b) k"
  by (auto simp: numbered_def upt_add_eq_append [symmetric] simp del: upt_Suc)

lemma numbered_Cons: "Index r = i \<Longrightarrow> numbered (Suc i) rs j \<Longrightarrow> numbered i (r # rs) j"
  by (auto simp: numbered_def upt_conv_Cons simp del: upt_Suc)

lemma tryExtractSAML_cases:
  "tryExtractSAML fl v pn u src i = (None, i) \<or>
   (\<exists>r. tryExtractSAML fl v pn u src i = (Some r, Suc i) \<and> Index r = i \<and> Source r = src \<and> URL r = u
        \<and> ParameterName r = pn)"
  by (auto simp: tryExtractSAML_def Let_def split: sum.splits option.splits)

lemma tryAll_numbered:
  "tryAll fl cands u src i = (rs, j) \<Longrightarrow> numbered i rs j \<and> tagged src u rs"
proof (induction cands arbitrary: i rs j)
  case Nil
  then show ?case by (simp add: numbered_def tagged_def)
next
  case (Cons c cands)
  obtain pn v where c: "c = (pn, v)" by (cases c)
  from tryExtractSAML_cases [of fl v pn u src i] show ?case
  proof
    assume n: "tryExtractSAML fl v pn u src i = (None, i)"
    with Cons.prems c have "tryAll fl cands u src i = (rs, j)" by simp
    from Cons.IH [OF this] show ?thesis .
  next
    assume "\<exists>r. tryExtractSAML fl v pn u src i = (Some r, Suc i) \<and> Index r = i \<and> Source r = src \<and> URL r = u
        \<and> ParameterName r = pn"
    then obtain r where r: "tryExtractSAML fl v pn u src i = (Some r, Suc i)" "Index r = i"
      "Source r = src" "URL r = u" by blast
    obtain rs' j' where t: "tryAll fl cands u src (Suc i) = (rs', j')" by (cases "tryAll fl cands u src (Suc i)")
    with Cons.prems c r have e: "rs = r # rs'" "j = j'" by simp_all
    from Cons.IH [OF t] r e show ?thesis
      by (simp add: numbered_Cons tagged_def)
  qed
qed

lemma tagged_append: "tagged s u a \<Longrightarrow> tagged s u b \<Longrightarrow> tagged s u (a @ b)"
  by (simp add: tagged_def)

lemma extractFromQueryParams_numbered:
  assumes "extractFromQueryParams lib fl params u i = (rs, j)"
  shows "numbered i rs j \<and> tagged ''request-query'' u rs"
proof -
  let ?c2 = "concat (map (\<lambda>param.
                     if isSAMLParameter (nv_Name param) then [(nv_Name param, nv_Value param)]
                     else []) params)"
  obtain r1 i1 where s1: "(case url_Query lib u of
              Some query \<Rightarrow>
                tryAll fl
                  (concat (map (\<lambda>(key, values).
                     concat (map (\<lambda>value. if isSAMLParameter key then [(key, value)] else [])
                       values)) query))
                  u ''request-query'' i
            | None \<Rightarrow> ([], i)) = (r1, i1)" by fastforce
  obtain r2 i2 where s2: "tryAll fl ?c2 u ''request-query'' i1 = (r2, i2)" by fastforce
  from s1 have p1: "numbered i r1 i1 \<and> tagged ''request-query'' u r1"
    by (auto split: option.splits dest: tryAll_numbered simp: numbered_Nil tagged_def)
  from s2 have p2: "numbered i1 r2 i2 \<and> tagged ''request-query'' u r2"
    by (rule tryAll_numbered)
  from assms s1 s2 have "rs = r1 @ r2" "j = i2"
    by (simp_all add: extractFromQueryParams_def)
  with p1 p2 show ?thesis by (auto intro: numbered_append tagged_append)
qed

lemma extractFromPostData_numbered:
  assumes "extractFromPostData lib fl pd u i = (rs, j)"
  shows "numbered i rs j \<and> tagged ''request-body'' u rs"
proof -
  let ?c1 = "concat (map (\<lambda>param.
                if isSAMLParameter (nv_Name param) then [(nv_Name param, nv_Value param)]
                else []) (pd_Params pd))"
  obtain r1 i1 where s1: "tryAll fl ?c1 u ''request-body'' i = (r1, i1)" by fastforce
  obtain r2 i2 where s2: "(if contains (pd_MimeType pd) ''application/x-www-form-urlencoded''
                 then (case url_ParseQuery lib (pd_Text pd) of
                         Some values \<Rightarrow>
                           tryAll fl
                             (concat (map (\<lambda>(key, vals).
                                if isSAMLParameter key then map (\<lambda>val. (key, val)) vals
                                else []) values))
                             u ''request-body'' i1
                       | None \<Rightarrow> ([], i1))
                 else ([], i1)) = (r2, i2)" by fastforce
  obtain r3 i3 where s3: "tryAll fl [([], pd_Text pd)] u ''request-body'' i2 = (r3, i3)" by fastforce
  from s1 have p1: "numbered i r1 i1 \<and> tagged ''request-body'' u r1"
    by (rule tryAll_numbered)
  from s2 have p2: "numbered i1 r2 i2 \<and> tagged ''request-body'' u r2"
    by (auto split: option.splits if_splits dest: tryAll_numbered simp: numbered_Nil tagged_def)
  from s3 have p3: "numbered i2 r3 i3 \<and> tagged ''request-body'' u r3"
    by (rule tryAll_numbered)
  from assms s1 s2 s3 have "rs = r1 @ r2 @ r3" "j = i3"
    by (simp_all add: extractFromPostData_def)
  with p1 p2 p3 show ?thesis by (auto intro!: numbered_append tagged_append)
qed

lemma extractFromResponseBody_numbered:
  assumes "extractFromResponseBody lib fl content u i = (rs, j)"
  shows "numbered i rs j \<and> tagged ''response-body'' u rs"
proof (cases "ct_Text content = []")
  case True
  with assms show ?thesis by (simp add: extractFromResponseBody_def numbered_Nil tagged_def)
next
  case False
  obtain r1 i1 where s1: "tryAll fl (map_range lib (extractSAMLFromHTML (ct_Text content)))
                u ''response-body'' i = (r1, i1)" by fastforce
  obtain r2 i2 where s2: "tryAll fl [([], ct_Text content)] u ''response-body'' i1 = (r2, i2)"
    by fastforce
  from s1 have p1: "numbered i r1 i1 \<and> tagged ''response-body'' u r1" by (rule tryAll_numbered)
  from s2 have p2: "numbered i1 r2 i2 \<and> tagged ''response-body'' u r2" by (rule tryAll_numbered)
  from assms False s1 s2 have "rs = r1 @ r2" "j = i2"
    by (simp_all add: extractFromResponseBody_def)
  with p1 p2 show ?thesis by (auto intro: numbered_append tagged_append)
qed

lemma extractEntries_ordered:
  "extractEntries lib fl entries i = (rs, j) \<Longrightarrow>
   numbered i rs j \<and>
   (\<exists>chunks. rs = concat chunks \<and>
      list_all2 (\<lambda>entry chunk. entryChunk (rq_URL (Request entry)) chunk) entries chunks)"
proof (induction entries arbitrary: i rs j)
  case Nil
  then show ?case by (simp add: numbered_Nil)
next
  case (Cons entry entries)
  let ?u = "rq_URL (Request entry)"
  obtain q i1 where s1: "extractFromQueryParams lib fl (rq_QueryString (Request entry)) ?u i = (q, i1)"
    by fastforce
  obtain p i2 where s2: "(case rq_PostData (Request entry) of
                   Some postData \<Rightarrow> extractFromPostData lib fl postData ?u i1
                 | None \<Rightarrow> ([], i1)) = (p, i2)" by fastforce
  obtain r i3 where s3: "extractFromResponseBody lib fl (rs_Content (Response entry)) ?u i2 = (r, i3)"
    by fastforce
  obtain rest i4 where s4: "extractEntries lib fl entries i3 = (rest, i4)" by fastforce
  from s1 have p1: "numbered i q i1" "tagged ''request-query'' ?u q"
    by (auto dest: extractFromQueryParams_numbered)
  from s2 have p2: "numbered i1 p i2" "tagged ''request-body'' ?u p"
    by (auto split: option.splits dest: extractFromPostData_numbered simp: numbered_Nil tagged_def)
  from s3 have p3: "numbered i2 r i3" "tagged ''response-body'' ?u r"
    by (auto dest: extractFromResponseBody_numbered)
  from Cons.IH [OF s4] obtain chunks where p4: "numbered i3 rest i4" "rest = concat chunks"
    "list_all2 (\<lambda>entry chunk. entryChunk (rq_URL (Request entry)) chunk) entries chunks"
    by blast
  from Cons.prems s1 s2 s3 s4 have e: "rs = q @ p @ r @ rest" "j = i4" by simp_all
  have n: "numbered i rs j" unfolding e
    by (intro numbered_append [OF p1(1)] numbered_append [OF p2(1)] numbered_append [OF p3(1)] p4(1))
  have c: "entryChunk ?u (q @ p @ r)" unfolding entryChunk_def using p1(2) p2(2) p3(2) by blast
  have "rs = concat ((q @ p @ r) # chunks)" using e p4(2) by simp
  moreover have "list_all2 (\<lambda>entry chunk. entryChunk (rq_URL (Request entry)) chunk)
      (entry # entries) ((q @ p @ r) # chunks)" using c p4(3) by simp
  ultimately show ?case using n by blast
qed

text \<open>
  C1: when the capture document parses, the extraction returns results whose indices are
  1, 2, ..., N in output order, and the output is, in entry order, one chunk for each
  entry: the results of its query parameters, then of its POST body, then of its response
  body.
\<close>

theorem C1_index_and_order:
  assumes "json_Unmarshal lib data = Some har"
  shows "\<exists>results chunks.
      ExtractFromHAR lib fl data = Inr results
    \<and> map Index results = [1 ..< Suc (length results)]
    \<and> results = concat chunks
    \<and> list_all2 (\<lambda>entry chunk. entryChunk (rq_URL (Request entry)) chunk) (Entries (Log har)) chunks"
proof -
  obtain rs j where e: "extractEntries lib fl (Entries (Log har)) 1 = (rs, j)" by fastforce
  from extractEntries_ordered [OF e] obtain chunks where
    c: "numbered 1 rs j" "rs = concat chunks"
      "list_all2 (\<lambda>entry chunk. entryChunk (rq_URL (Request entry)) chunk) (Entries (Log har)) chunks"
    by blast
  from c(1) have "map Index rs = [1 ..< Suc (length rs)]" by (simp add: numbered_def)
  moreover from assms e have "ExtractFromHAR lib fl data = Inr rs" by (simp add: ExtractFromHAR_def)
  ultimately show ?thesis using c(2,3) by blast
qed

lemma tryExtractSAML_index:
  assumes "tryExtractSAML fl v pn u src i = (Some r, i')"
  shows "tryExtractSAML fl v pn u src j = (Some (r\<lparr>Index := j\<rparr>), Suc j) \<and> Index r = i \<and> i' = Suc i"
  using assms
  by (auto simp: tryExtractSAML_def Let_def split: sum.splits option.splits if_splits)

lemma tryAll_append:
  "tryAll fl (c1 @ c2) u src i =
     (case tryAll fl c1 u src i of
        (r1, i1) \<Rightarrow> (case tryAll fl c2 u src i1 of (r2, i2) \<Rightarrow> (r1 @ r2, i2)))"
proof (induction c1 arbitrary: i)
  case Nil
  show ?case by (simp split: prod.splits)
next
  case (Cons c c1)
  obtain pn v where c: "c = (pn, v)" by (cases c)
  show ?case
    by (simp add: c Cons.IH split: prod.splits option.splits)
qed

lemma tryAll_member:
  assumes "(k, v) \<in> set cands"
    and "fst (tryExtractSAML fl v k u src 0) = Some r"
  shows "\<exists>pre post j. tryAll fl cands u src i = (pre @ r\<lparr>Index := i + length pre\<rparr> # post, j)
      \<and> tagged src u pre \<and> tagged src u post \<and> j = i + length pre + 1 + length post"
proof -
  from assms(1) obtain c1 c2 where s: "cands = c1 @ (k, v) # c2" by (auto dest: split_list)
  obtain i' where t: "tryExtractSAML fl v k u src 0 = (Some r, i')"
    using assms(2) by (cases "tryExtractSAML fl v k u src 0") simp
  note ix = tryExtractSAML_index [OF t]
  obtain r1 i1 where a: "tryAll fl c1 u src i = (r1, i1)" by fastforce
  obtain r2 i2 where b: "tryAll fl c2 u src (Suc i1) = (r2, i2)" by fastforce
  from tryAll_numbered [OF a] have n1: "i1 = i + length r1" "tagged src u r1"
    by (simp_all add: numbered_def)
  from tryAll_numbered [OF b] have n2: "i2 = Suc i1 + length r2" "tagged src u r2"
    by (simp_all add: numbered_def)
  have "tryAll fl cands u src i = (r1 @ r\<lparr>Index := i1\<rparr> # r2, i2)"
    unfolding s tryAll_append using a b ix [of i1] by simp
  with n1 n2 show ?thesis by auto
qed

lemma extractFromQueryParams_duplicate:
  assumes "url_Query lib u = Some query" and "(k, vs) \<in> set query" and "v \<in> set vs"
    and "p \<in> set params" and "nv_Name p = k" and "nv_Value p = v"
    and "isSAMLParameter k"
    and "fst (tryExtractSAML fl v k u ''request-query'' 0) = Some r"
  shows "\<exists>a m b j. extractFromQueryParams lib fl params u i =
        (a @ r\<lparr>Index := i + length a\<rparr> # m @ r\<lparr>Index := i + length a + 1 + length m\<rparr> # b, j)
      \<and> tagged ''request-query'' u m"
proof -
  let ?c1 = "concat (map (\<lambda>(key, values).
                     concat (map (\<lambda>value. if isSAMLParameter key then [(key, value)] else [])
                       values)) query)"
  let ?c2 = "concat (map (\<lambda>param.
                     if isSAMLParameter (nv_Name param) then [(nv_Name param, nv_Value param)]
                     else []) params)"
  have m1: "(k, v) \<in> set ?c1" using assms(2,3,7) by force
  have m2: "(k, v) \<in> set ?c2" using assms(4,5,6,7) by force
  from tryAll_member [OF m1 assms(8), of i] obtain a a' i1 where
    1: "tryAll fl ?c1 u ''request-query'' i = (a @ r\<lparr>Index := i + length a\<rparr> # a', i1)"
      "tagged ''request-query'' u a'" "i1 = i + length a + 1 + length a'" by blast
  from tryAll_member [OF m2 assms(8), of i1] obtain b' b i2 where
    2: "tryAll fl ?c2 u ''request-query'' i1 = (b' @ r\<lparr>Index := i1 + length b'\<rparr> # b, i2)"
      "tagged ''request-query'' u b'" by blast
  have "extractFromQueryParams lib fl params u i =
      (a @ r\<lparr>Index := i + length a\<rparr> # (a' @ b') @
         r\<lparr>Index := i + length a + 1 + length (a' @ b')\<rparr> # b, i2)"
    using 1 2 assms(1) by (simp add: extractFromQueryParams_def add.assoc)
  moreover have "tagged ''request-query'' u (a' @ b')" using 1(2) 2(2) by (rule tagged_append)
  ultimately show ?thesis by blast
qed

lemma extractEntries_append:
  "extractEntries lib fl (e1 @ e2) i =
     (case extractEntries lib fl e1 i of
        (r1, i1) \<Rightarrow> (case extractEntries lib fl e2 i1 of (r2, i2) \<Rightarrow> (r1 @ r2, i2)))"
proof (induction e1 arbitrary: i)
  case Nil
  show ?case by (simp split: prod.splits)
next
  case (Cons e e1)
  show ?case
    by (simp add: Cons.IH split: prod.splits)
qed

text \<open>
  C9, amended: an allow-listed parameter that the request URL of an entry carries in its
  query string and the entry repeats, with the same value, in its query array, and whose
  value the extractor accepts, yields two results that differ in their index only. The
  index of the second is the index of the first plus one plus the number of results
  between the two, all of which have the source \<open>request-query\<close> and the URL of that entry.
  So the two indices are distinct, and they are consecutive exactly when no other result
  lies between the two.
\<close>

theorem C9_duplicate_candidate_amended:
  assumes "json_Unmarshal lib data = Some har"
    and "entry \<in> set (Entries (Log har))"
    and "url_Query lib (rq_URL (Request entry)) = Some query"
    and "(k, vs) \<in> set query" and "v \<in> set vs"
    and "p \<in> set (rq_QueryString (Request entry))" and "nv_Name p = k" and "nv_Value p = v"
    and "isSAMLParameter k"
    and "fst (tryExtractSAML fl v k (rq_URL (Request entry)) ''request-query'' 0) = Some r"
  shows "\<exists>a m b.
      ExtractFromHAR lib fl data =
        Inr (a @ r\<lparr>Index := length a + 1\<rparr> # m @ r\<lparr>Index := length a + 1 + (1 + length m)\<rparr> # b)
    \<and> tagged ''request-query'' (rq_URL (Request entry)) m"
proof -
  let ?u = "rq_URL (Request entry)"
  from assms(2) obtain e1 e2 where s: "Entries (Log har) = e1 @ entry # e2"
    by (auto dest: split_list)
  obtain x i1 where a: "extractEntries lib fl e1 1 = (x, i1)" by fastforce
  from extractEntries_ordered [OF a] have n: "i1 = 1 + length x" by (simp add: numbered_def)
  from extractFromQueryParams_duplicate [OF assms(3-10), of i1] obtain q m b j where
    q: "extractFromQueryParams lib fl (rq_QueryString (Request entry)) ?u i1 =
        (q @ r\<lparr>Index := i1 + length q\<rparr> # m @ r\<lparr>Index := i1 + length q + 1 + length m\<rparr> # b, j)"
      "tagged ''request-query'' ?u m" by blast
  obtain fp i3 where fp: "(case rq_PostData (Request entry) of
                   Some postData \<Rightarrow> extractFromPostData lib fl postData ?u j
                 | None \<Rightarrow> ([], j)) = (fp, i3)" by fastforce
  obtain fr i4 where fr: "extractFromResponseBody lib fl (rs_Content (Response entry)) ?u i3 = (fr, i4)"
    by fastforce
  obtain more i2 where more: "extractEntries lib fl e2 i4 = (more, i2)" by fastforce
  define rest where "rest = fp @ fr @ more"
  have t: "extractEntries lib fl (entry # e2) i1 =
      ((q @ r\<lparr>Index := i1 + length q\<rparr> # m @ r\<lparr>Index := i1 + length q + 1 + length m\<rparr> # b) @ rest, i2)"
    using q(1) fp fr more by (simp add: rest_def)
  have "extractEntries lib fl (Entries (Log har)) 1 =
      (x @ (q @ r\<lparr>Index := i1 + length q\<rparr> # m @ r\<lparr>Index := i1 + length q + 1 + length m\<rparr> # b) @ rest, i2)"
    unfolding s extractEntries_append using a t by simp
  then have "ExtractFromHAR lib fl data =
      Inr ((x @ q) @ r\<lparr>Index := length (x @ q) + 1\<rparr> # m @
           r\<lparr>Index := length (x @ q) + 1 + (1 + length m)\<rparr> # (b @ rest))"
    using assms(1) n by (simp add: ExtractFromHAR_def add.commute add.left_commute)
  with q(2) show ?thesis by blast
qed

section \<open>The parser and the error classes\<close>

lemma parseSignature_Unmarshal_Response:
  "parseSignature (lib\<lparr>Unmarshal_Response := f\<rparr>) = parseSignature lib"
  by (simp add: parseSignature_def fun_eq_iff Let_def cong: option.case_cong)

lemma ParsePartial_shaped:
  assumes "contains (TrimSpace xmlData) ''<samlp:Response'' \<or> contains (TrimSpace xmlData) ''<Response''"
    and "Unmarshal_Response lib xmlData = Some resp"
  shows "ParsePartial lib xmlData =
    Inr (SAMLInfo ''Response (Encrypted)'' (resp_ID resp)
            (parseInstant lib (resp_IssueInstant resp)) (resp_Destination resp)
            (resp_InResponseTo resp) (parseStatus (resp_Status resp)) (resp_Issuer resp)
            None None None [] (map_option (parseSignature lib) (resp_Signature resp)) None
            [] [] None None None [])"
  using assms by (auto simp: ParsePartial_def parseResponsePartial_def Let_def)

lemma ParsePartial_unsniffed:
  "\<not> (contains (TrimSpace xmlData) ''<samlp:Response'' \<or> contains (TrimSpace xmlData) ''<Response'')
   \<Longrightarrow> ParsePartial lib xmlData = Parse lib xmlData"
  by (simp add: ParsePartial_def Let_def)

lemma Parse_unsniffed:
  assumes "\<not> (contains (TrimSpace xmlData) ''<samlp:Response'' \<or> contains (TrimSpace xmlData) ''<Response'')"
    and "\<not> (contains (TrimSpace xmlData) ''<samlp:AuthnRequest'' \<or> contains (TrimSpace xmlData) ''<AuthnRequest'')"
    and "\<not> (contains (TrimSpace xmlData) ''<saml:Assertion'' \<or> contains (TrimSpace xmlData) ''<Assertion'')"
    and "Unmarshal_Response lib xmlData = Some resp"
  shows "Parse lib xmlData = parseResponse lib xmlData"
  using assms
  by (auto simp: Parse_def Let_def parseResponse_def parseAssertionStruct_def split: option.splits sum.splits)

text \<open>
  C2, amended: for an input in which the sniff of \<open>ParsePartial\<close> finds the text
  \<open><samlp:Response\<close> or \<open><Response\<close> and which unmarshals into the response structure,
  \<open>ParsePartial\<close> succeeds; the record has the type tag \<open>Response (Encrypted)\<close>, the ID,
  destination and issuer of the response, a status exactly when the status code has a
  non-empty value, and a signature exactly when the response has one; and the record is the
  same whatever the assertion subtree of the response unmarshals to. An input in which the
  sniff finds neither text, a response under another prefix included, is handed to
  \<open>Parse\<close>.
\<close>

theorem C2_partial_parse_amended:
  "((contains (TrimSpace xmlData) ''<samlp:Response'' \<or> contains (TrimSpace xmlData) ''<Response'')
     \<and> Unmarshal_Response lib xmlData = Some resp \<longrightarrow>
     (\<exists>info. ParsePartial lib xmlData = Inr info
        \<and> info_Type info = ''Response (Encrypted)''
        \<and> info_ID info = resp_ID resp
        \<and> info_Destination info = resp_Destination resp
        \<and> info_Issuer info = resp_Issuer resp
        \<and> info_Status info =
            (if st_StatusCodeValue (resp_Status resp) \<noteq> []
             then Some \<lparr>StatusCode = extractStatusCode (st_StatusCodeValue (resp_Status resp)),
                        StatusMessage = st_StatusMessage (resp_Status resp)\<rparr>
             else None)
        \<and> (case resp_Signature resp of
              Some sig \<Rightarrow>
                (\<exists>si. info_Signature info = Some si \<and> Signed si
                   \<and> SignatureMethod si = sig_SignatureMethodAlgorithm sig
                   \<and> DigestMethod si = sig_DigestMethodAlgorithm sig)
            | None \<Rightarrow> info_Signature info = None)
        \<and> ParsePartial (lib\<lparr>Unmarshal_Response := (Unmarshal_Response lib)
               (xmlData := Some (resp\<lparr>resp_Assertion := a\<rparr>))\<rparr>) xmlData = Inr info))
   \<and> (\<not> (contains (TrimSpace xmlData) ''<samlp:Response'' \<or> contains (TrimSpace xmlData) ''<Response'')
        \<longrightarrow> ParsePartial lib xmlData = Parse lib xmlData)"
proof (intro conjI impI)
  assume h: "(contains (TrimSpace xmlData) ''<samlp:Response'' \<or> contains (TrimSpace xmlData) ''<Response'')
     \<and> Unmarshal_Response lib xmlData = Some resp"
  let ?lib' = "lib\<lparr>Unmarshal_Response := (Unmarshal_Response lib)
           (xmlData := Some (resp\<lparr>resp_Assertion := a\<rparr>))\<rparr>"
  have u: "Unmarshal_Response ?lib' xmlData = Some (resp\<lparr>resp_Assertion := a\<rparr>)" by simp
  have s: "Signed (parseSignature lib sig) \<and>
      SignatureMethod (parseSignature lib sig) = sig_SignatureMethodAlgorithm sig \<and>
      DigestMethod (parseSignature lib sig) = sig_DigestMethodAlgorithm sig" for sig
    by (simp add: parseSignature_def Let_def split: option.splits)
  from h have h1: "contains (TrimSpace xmlData) ''<samlp:Response'' \<or> contains (TrimSpace xmlData) ''<Response''"
    and h2: "Unmarshal_Response lib xmlData = Some resp" by blast+
  show "\<exists>info. ParsePartial lib xmlData = Inr info
        \<and> info_Type info = ''Response (Encrypted)''
        \<and> info_ID info = resp_ID resp
        \<and> info_Destination info = resp_Destination resp
        \<and> info_Issuer info = resp_Issuer resp
        \<and> info_Status info =
            (if st_StatusCodeValue (resp_Status resp) \<noteq> []
             then Some \<lparr>StatusCode = extractStatusCode (st_StatusCodeValue (resp_Status resp)),
                        StatusMessage = st_StatusMessage (resp_Status resp)\<rparr>
             else None)
        \<and> (case resp_Signature resp of
              Some sig \<Rightarrow>
                (\<exists>si. info_Signature info = Some si \<and> Signed si
                   \<and> SignatureMethod si = sig_SignatureMethodAlgorithm sig
                   \<and> DigestMethod si = sig_DigestMethodAlgorithm sig)
            | None \<Rightarrow> info_Signature info = None)
        \<and> ParsePartial ?lib' xmlData = Inr info"
    unfolding ParsePartial_shaped [OF h1 h2] ParsePartial_shaped [OF h1 u]
    by (simp add: parseStatus_def parseSignature_Unmarshal_Response parseInstant_def s
        split: option.splits)
next
  assume "\<not> (contains (TrimSpace xmlData) ''<samlp:Response'' \<or> contains (TrimSpace xmlData) ''<Response'')"
  then show "ParsePartial lib xmlData = Parse lib xmlData" by (rule ParsePartial_unsniffed)
qed

text \<open>
  C8, amended: for an input in which the sniff of \<open>ParsePartial\<close> finds the text
  \<open><samlp:Response\<close> or \<open><Response\<close> and which unmarshals into the response structure, the
  record has the type tag \<open>Response (Encrypted)\<close> and no nested assertion, also when the
  response holds a plain assertion, which \<open>Parse\<close> attaches as a child on the same input.
  For an input in which neither this sniff nor the sniffs of \<open>Parse\<close> find their texts and
  which unmarshals into a response with a plain assertion, \<open>ParsePartial\<close> returns the
  record of \<open>Parse\<close>: the type tag is \<open>Response\<close> and the assertion is attached as a child.
\<close>

theorem C8_partial_drops_assertion_amended:
  "((contains (TrimSpace xmlData) ''<samlp:Response'' \<or> contains (TrimSpace xmlData) ''<Response'')
     \<and> Unmarshal_Response lib xmlData = Some resp \<longrightarrow>
     (\<exists>info. ParsePartial lib xmlData = Inr info
        \<and> info_Type info = ''Response (Encrypted)''
        \<and> info_Assertion info = None
        \<and> (\<forall>a. resp_Assertion resp = Some a \<longrightarrow>
              (\<exists>full child. Parse lib xmlData = Inr full \<and> info_Type full = ''Response''
                 \<and> info_Assertion full = Some child \<and> info_Type child = ''Assertion''
                 \<and> info_ID child = asrt_ID a))))
   \<and> (\<not> (contains (TrimSpace xmlData) ''<samlp:Response'' \<or> contains (TrimSpace xmlData) ''<Response'')
      \<and> \<not> (contains (TrimSpace xmlData) ''<samlp:AuthnRequest'' \<or> contains (TrimSpace xmlData) ''<AuthnRequest'')
      \<and> \<not> (contains (TrimSpace xmlData) ''<saml:Assertion'' \<or> contains (TrimSpace xmlData) ''<Assertion'')
      \<and> Unmarshal_Response lib xmlData = Some resp \<and> resp_Assertion resp = Some a \<longrightarrow>
     (\<exists>info child. ParsePartial lib xmlData = Inr info
        \<and> info_Type info = ''Response''
        \<and> info_Assertion info = Some child \<and> info_Type child = ''Assertion''
        \<and> info_ID child = asrt_ID a))"
  by (auto simp: ParsePartial_def parseResponsePartial_def Parse_def parseResponse_def
      parseAssertionStruct_def Let_def split: option.splits)

lemma Decode_first_success:
  "Decode input =
     (case find (\<lambda>r. r \<noteq> None) (strategies (cleanInput input)) of
        Some (Some decoded) \<Rightarrow> Inr decoded
      | _ \<Rightarrow> Inl Base64DecodeFailed)"
  by (simp add: Decode_def strategies_def cleanInput_def Let_def split: option.splits)

lemma Decode_error: "Decode input = Inl e \<Longrightarrow> e = Base64DecodeFailed"
  by (auto simp: Decode_def Let_def split: option.splits if_splits)

lemma Parse_error: "Parse lib data = Inl e \<Longrightarrow> class_of e = MalformedXML"
  by (auto simp: Parse_def Let_def parseResponse_def parseAuthnRequest_def parseAssertion_def
      parseAssertionStruct_def split: option.splits if_splits sum.splits)

lemma Parse_rejected:
  assumes "Unmarshal_Response lib data = None" "Unmarshal_AuthnRequest lib data = None"
    "Unmarshal_Assertion lib data = None"
  shows "\<exists>e. Parse lib data = Inl e"
  using assms
  by (auto simp: Parse_def Let_def parseResponse_def parseAuthnRequest_def parseAssertion_def)

lemma Decode_invalid_lit: "Decode ''not-valid-base64!!!'' = Inl Base64DecodeFailed"
proof -
  have "list_all printable ''not-valid-base64!!!''" by (simp add: printable_def)
  from clean_encoded [OF this] show ?thesis
    by (simp add: Decode_def) (simp add: ev decodeWithPaddingFix_def)
qed

lemma Decode_empty: "Decode [] = Inr []"
  by (simp add: Decode_def removeAllByte_def TrimSpace_printable DecodeString_def)

section \<open>The model on the sample captures\<close>

lemma Decode_sampleRequest: "Decode sampleRequestValue = Inr (''<AuthnRequest ID='' @ [CHR 0x22] @ ''a'' @ [CHR 0x22] @ ''/>'')"
proof -
  have "list_all printable sampleRequestValue" by (simp add: printable_def sampleRequestValue_def)
  from clean_encoded [OF this] show ?thesis
    by (simp add: Decode_def) (simp add: ev sampleRequestValue_def)
qed

lemma Decode_sampleResponse: "Decode sampleResponseValue = Inr ''<samlp:Response/>''"
proof -
  have "list_all printable sampleResponseValue" by (simp add: printable_def sampleResponseValue_def)
  from clean_encoded [OF this] show ?thesis
    by (simp add: Decode_def) (simp add: ev sampleResponseValue_def)
qed

lemma try_sampleRequest:
  "tryExtractSAML fl sampleRequestValue pn u src i =
     (Some \<lparr>Index = i, Type = ''AuthnRequest'', Source = src, URL = u, ParameterName = pn,
            RawValue = sampleRequestValue,
            DecodedXML = ''<AuthnRequest ID='' @ [CHR 0x22] @ ''a'' @ [CHR 0x22] @ ''/>'',
            WasDeflated = False\<rparr>, Suc i)"
proof -
  have q: "QueryUnescape sampleRequestValue = Some sampleRequestValue"
    by (simp add: sampleRequestValue_def)
  have n: "sampleRequestValue \<noteq> []" by (simp add: sampleRequestValue_def)
  have l: "looksLikeXML (''<AuthnRequest ID='' @ [CHR 0x22] @ ''a'' @ [CHR 0x22] @ ''/>'')"
    by (simp add: looksLikeXML_def TrimSpace_printable printable_def)
  have s: "isSAMLXML (''<AuthnRequest ID='' @ [CHR 0x22] @ ''a'' @ [CHR 0x22] @ ''/>'')"
    by (simp add: isSAMLXML_def samlIndicators_def)
  have t: "detectSAMLType (''<AuthnRequest ID='' @ [CHR 0x22] @ ''a'' @ [CHR 0x22] @ ''/>'') = ''AuthnRequest''"
    by (simp add: detectSAMLType_def typeChecks_def)
  show ?thesis using l s t
    by (simp add: tryExtractSAML_def q n Decode_sampleRequest)
qed

lemma try_sampleResponse:
  "tryExtractSAML fl sampleResponseValue pn u src i =
     (Some \<lparr>Index = i, Type = ''Response'', Source = src, URL = u, ParameterName = pn,
            RawValue = sampleResponseValue, DecodedXML = ''<samlp:Response/>'',
            WasDeflated = False\<rparr>, Suc i)"
proof -
  have q: "QueryUnescape sampleResponseValue = Some sampleResponseValue"
    by (simp add: sampleResponseValue_def)
  have n: "sampleResponseValue \<noteq> []" by (simp add: sampleResponseValue_def)
  have l: "looksLikeXML ''<samlp:Response/>''"
    by (simp add: looksLikeXML_def TrimSpace_printable printable_def)
  have s: "isSAMLXML ''<samlp:Response/>''"
    by (simp add: isSAMLXML_def samlIndicators_def)
  have t: "detectSAMLType ''<samlp:Response/>'' = ''Response''"
    by (simp add: detectSAMLType_def typeChecks_def)
  show ?thesis using l s t
    by (simp add: tryExtractSAML_def q n Decode_sampleResponse)
qed

lemma isSAMLParameter_samples: "isSAMLParameter ''SAMLRequest''" "isSAMLParameter ''SAMLResponse''"
  by (simp_all add: isSAMLParameter_def samlParams_def lowerByte_def char_of_eq_nat)

lemma try_empty: "tryExtractSAML fl [] pn u src i = (None, i)"
  by (simp add: tryExtractSAML_def)

lemma try_samples_request_query:
  "fst (tryExtractSAML fl sampleRequestValue ''SAMLRequest'' sampleTwoURL ''request-query'' 0)
     = Some (sampleRequestResult\<lparr>Index := 0\<rparr>)"
  by (simp add: try_sampleRequest sampleRequestResult_def)

theorem C9_duplicate_candidate_amended_witness:
  "\<exists>a m b.
      ExtractFromHAR sampleTwoLibrary storedFlate ''capture: two parameters'' =
        Inr (a @ sampleRequestResult\<lparr>Index := length a + 1\<rparr> # m @
             sampleRequestResult\<lparr>Index := length a + 1 + (1 + length m)\<rparr> # b)
    \<and> tagged ''request-query'' sampleTwoURL m"
  using C9_duplicate_candidate_amended [of sampleTwoLibrary "''capture: two parameters''"
      "\<lparr>Log = \<lparr>Entries = [sampleTwo]\<rparr>\<rparr>" sampleTwo
      "[(''SAMLRequest'', [sampleRequestValue]), (''SAMLResponse'', [sampleResponseValue])]"
      "''SAMLRequest''" "[sampleRequestValue]" sampleRequestValue
      "\<lparr>nv_Name = ''SAMLRequest'', nv_Value = sampleRequestValue\<rparr>" storedFlate
      "sampleRequestResult\<lparr>Index := 0\<rparr>"]
  by (simp add: sampleTwoLibrary_def sampleTwo_def isSAMLParameter_samples
      try_samples_request_query)

text \<open>
  The claim as worded fails when the query carries two accepted parameters: the results of
  the URL come before those of the array. With the map of the URL ranged over in the order
  request, response, the two results of the request have the indices 1 and 3 and those of
  the response the indices 2 and 4; in the other order the two results of the response have
  the indices 1 and 4.
\<close>

lemma extract_sampleTwo:
  "extractFromQueryParams sampleTwoLibrary storedFlate (rq_QueryString (Request sampleTwo))
     sampleTwoURL (Suc 0) =
     ([sampleRequestResult, sampleResponseResult\<lparr>Index := 2\<rparr>,
       sampleRequestResult\<lparr>Index := 3\<rparr>, sampleResponseResult\<lparr>Index := 4\<rparr>], 5)"
  "extractFromQueryParams sampleTwoLibraryRev storedFlate (rq_QueryString (Request sampleTwo))
     sampleTwoURL (Suc 0) =
     ([sampleResponseResult, sampleRequestResult\<lparr>Index := 2\<rparr>,
       sampleRequestResult\<lparr>Index := 3\<rparr>, sampleResponseResult\<lparr>Index := 4\<rparr>], 5)"
  by (simp_all add: extractFromQueryParams_def sampleTwoLibrary_def sampleTwoLibraryRev_def
      sampleTwo_def isSAMLParameter_samples try_sampleRequest try_sampleResponse
      sampleRequestResult_def sampleResponseResult_def)

theorem C9_duplicate_candidate_counterexample:
  "ExtractFromHAR sampleTwoLibrary storedFlate ''capture: two parameters'' =
     Inr [sampleRequestResult, sampleResponseResult\<lparr>Index := 2\<rparr>,
          sampleRequestResult\<lparr>Index := 3\<rparr>, sampleResponseResult\<lparr>Index := 4\<rparr>]
   \<and> ExtractFromHAR sampleTwoLibraryRev storedFlate ''capture: two parameters'' =
     Inr [sampleResponseResult, sampleRequestResult\<lparr>Index := 2\<rparr>,
          sampleRequestResult\<lparr>Index := 3\<rparr>, sampleResponseResult\<lparr>Index := 4\<rparr>]"
proof -
  have j: "json_Unmarshal sampleTwoLibrary ''capture: two parameters''
      = Some \<lparr>Log = \<lparr>Entries = [sampleTwo]\<rparr>\<rparr>"
    "json_Unmarshal sampleTwoLibraryRev ''capture: two parameters''
      = Some \<lparr>Log = \<lparr>Entries = [sampleTwo]\<rparr>\<rparr>"
    by (simp_all add: sampleTwoLibrary_def sampleTwoLibraryRev_def)
  have e: "rq_URL (Request sampleTwo) = sampleTwoURL" "rq_PostData (Request sampleTwo) = None"
    "ct_Text (rs_Content (Response sampleTwo)) = []"
    by (simp_all add: sampleTwo_def)
  show ?thesis
    by (simp add: ExtractFromHAR_def j e extract_sampleTwo extractFromResponseBody_def)
qed

theorem C1_index_and_order_witness:
  "\<exists>results. ExtractFromHAR sampleLibrary storedFlate ''capture: redirect, post'' = Inr results
     \<and> map Index results = [1, 2, 3]
     \<and> map Type results = [''AuthnRequest'', ''AuthnRequest'', ''Response'']
     \<and> map Source results = [''request-query'', ''request-query'', ''request-body'']"
proof -
  have j: "json_Unmarshal sampleLibrary ''capture: redirect, post'' =
      Some \<lparr>Log = \<lparr>Entries = [sampleRedirect, samplePost]\<rparr>\<rparr>"
    by (simp add: sampleLibrary_def)
  from C1_index_and_order [OF j, of storedFlate] obtain results where
    r: "ExtractFromHAR sampleLibrary storedFlate ''capture: redirect, post'' = Inr results"
      "map Index results = [1 ..< Suc (length results)]" by blast
  have u: "sampleACSURL \<noteq> sampleSSOURL" by (simp add: sampleACSURL_def sampleSSOURL_def)
  have "\<exists>a b c. fst (extractEntries sampleLibrary storedFlate [sampleRedirect, samplePost] 1) = [a, b, c]
      \<and> map Type [a, b, c] = [''AuthnRequest'', ''AuthnRequest'', ''Response'']
      \<and> map Source [a, b, c] = [''request-query'', ''request-query'', ''request-body'']"
    by (simp add: sampleRedirect_def samplePost_def sampleLibrary_def extractFromQueryParams_def
        extractFromPostData_def extractFromResponseBody_def isSAMLParameter_samples
        try_sampleRequest try_sampleResponse try_empty u)
  with r j show ?thesis
    by (auto simp: ExtractFromHAR_def upt_rec)
qed

section \<open>The smart decode\<close>

lemma leadingSpace_trimLeft: "leadingSpace (trimLeft s) = 0"
  by (induction s rule: trimLeft.induct) (subst trimLeft.simps, simp)

lemma trailingSpace_trimRight: "trailingSpace (trimRight s) = 0"
  by (induction s rule: trimRight.induct) (subst trimRight.simps, simp)

lemma trimRight_take: "\<exists>n. trimRight s = take n s"
proof (induction s rule: trimRight.induct)
  case (1 s)
  show ?case
  proof (cases "trailingSpace s = 0")
    case True
    then have "trimRight s = take (length s) s" by (subst trimRight.simps) simp
    then show ?thesis by blast
  next
    case False
    with 1 obtain n where "trimRight (take (length s - trailingSpace s) s) =
        take n (take (length s - trailingSpace s) s)" by blast
    with False have "trimRight s = take (min n (length s - trailingSpace s)) s"
      by (subst trimRight.simps) (simp add: min.commute)
    then show ?thesis by blast
  qed
qed

lemma hasPrefix_take: "hasPrefix (take n t) w \<Longrightarrow> hasPrefix t w"
proof (induction t w arbitrary: n rule: hasPrefix.induct)
  case (3 c cs p ps)
  then show ?case by (cases n) auto
qed auto

lemma leadingSpace_take: "leadingSpace t = 0 \<Longrightarrow> leadingSpace (take n t) = 0"
proof -
  assume a: "leadingSpace t = 0"
  have ne: "w \<noteq> []" if "w \<in> set unicodeSpaces" for w
    using that spaces_not_printable by (auto simp: list_all_iff)
  have "find (hasPrefix t) unicodeSpaces = None"
  proof (cases "find (hasPrefix t) unicodeSpaces")
    case (Some w)
    then have "w \<in> set unicodeSpaces" by (auto simp: find_Some_iff)
    with a Some ne show ?thesis by (simp add: leadingSpace_def)
  qed simp
  then have "\<not> hasPrefix t w" if "w \<in> set unicodeSpaces" for w
    using that by (simp add: find_None_iff)
  then have "\<not> hasPrefix (take n t) w" if "w \<in> set unicodeSpaces" for w
    using that hasPrefix_take by blast
  then have "find (hasPrefix (take n t)) unicodeSpaces = None" by (simp add: find_None_iff)
  then show ?thesis by (simp add: leadingSpace_def)
qed

lemma TrimSpace_idem: "TrimSpace (TrimSpace s) = TrimSpace s"
proof -
  obtain n where n: "trimRight (trimLeft s) = take n (trimLeft s)"
    using trimRight_take by blast
  have l: "leadingSpace (TrimSpace s) = 0"
    unfolding TrimSpace_def n by (rule leadingSpace_take [OF leadingSpace_trimLeft])
  have r: "trailingSpace (TrimSpace s) = 0"
    unfolding TrimSpace_def by (rule trailingSpace_trimRight)
  have "trimLeft (TrimSpace s) = TrimSpace s" using l by (subst trimLeft.simps) simp
  moreover have "trimRight (TrimSpace s) = TrimSpace s" using r by (subst trimRight.simps) simp
  ultimately show ?thesis by (simp add: TrimSpace_def [of "TrimSpace s"])
qed

lemma xmlShaped_code: "xmlShaped d = (utf8Valid d \<and> length d > 0 \<and> d ! 0 = CHR ''<'')"
  by (cases d) (auto simp: xmlShaped_def)

text \<open>
  C3, amended: the smart decode returns the trimmed input as it is when it is empty, starts
  with \<open><\<close> or holds a character that is neither of a base64 alphabet nor a carriage
  return, line feed or space; otherwise it decodes the trimmed input, returns the error of
  the decoding if there is one, the decoded bytes if they are valid UTF-8 starting with
  \<open><\<close>, else the inflated bytes if inflation succeeds with valid UTF-8 starting with \<open><\<close>,
  else the decoded bytes.
\<close>

theorem C3_SmartDecode_amended:
  "SmartDecode fl input =
     (let t = TrimSpace input
      in if t = [] \<or> hasPrefix t ''<''
            \<or> (\<exists>c \<in> set t. \<not> isBase64Char c \<and> c \<noteq> CHR 0x0A \<and> c \<noteq> CHR 0x0D \<and> c \<noteq> CHR '' '')
         then Inr t
         else (case Decode t of
                 Inl err \<Rightarrow> Inl err
               | Inr decoded \<Rightarrow>
                   if xmlShaped decoded then Inr decoded
                   else (case inflate fl decoded of
                           Some inflated \<Rightarrow> if xmlShaped inflated then Inr inflated else Inr decoded
                         | None \<Rightarrow> Inr decoded)))"
  by (auto simp: SmartDecode_def IsBase64Encoded_def TrimSpace_idem Let_def xmlShaped_code
      list_all_iff split: sum.splits option.splits)

lemma utf8Valid_ascii: "list_all (\<lambda>c. inRange c 0x00 0x7F) s \<Longrightarrow> utf8Valid s"
  by (induction s) auto

theorem C3_SmartDecode_amended_witness:
  "SmartDecode storedFlate sampleResponseValue = Inr ''<samlp:Response/>''
   \<and> SmartDecode storedFlate '' <a/>'' = Inr ''<a/>''"
proof -
  have p: "list_all printable sampleResponseValue" by (simp add: printable_def sampleResponseValue_def)
  then have t: "TrimSpace sampleResponseValue = sampleResponseValue"
    by (intro TrimSpace_printable) (simp add: sampleResponseValue_def printable_def)
  have b: "\<not> (sampleResponseValue = [] \<or> hasPrefix sampleResponseValue ''<''
            \<or> (\<exists>c \<in> set sampleResponseValue. \<not> isBase64Char c \<and> c \<noteq> CHR 0x0A \<and> c \<noteq> CHR 0x0D \<and> c \<noteq> CHR '' ''))"
    by (simp add: sampleResponseValue_def isBase64Char_def)
  have x: "xmlShaped ''<samlp:Response/>''"
    by (simp add: xmlShaped_def utf8Valid_ascii inRange_def)
  have 1: "SmartDecode storedFlate sampleResponseValue = Inr ''<samlp:Response/>''"
    using C3_SmartDecode_amended [of storedFlate sampleResponseValue] b x
    by (simp add: t Decode_sampleResponse)
  have t2: "TrimSpace '' <a/>'' = ''<a/>''"
    by (simp add: TrimSpace_def trimLeft.simps trimRight.simps ev)
  have 2: "SmartDecode storedFlate '' <a/>'' = Inr ''<a/>''"
    using C3_SmartDecode_amended [of storedFlate "'' <a/>''"] by (simp add: t2)
  from 1 2 show ?thesis by simp
qed

lemma Decode_urlencoded_lit: "Decode ''PHNhbWw%2B'' = Inr ''<saml>''"
proof -
  have "list_all printable ''PHNhbWw%2B''" by (simp add: printable_def)
  from clean_encoded [OF this] show ?thesis
    by (simp add: Decode_def) (simp add: ev decodeWithPaddingFix_def)
qed

text \<open>
  The claim as worded fails on a percent-encoded value: it does not start with \<open><\<close> and
  \<open>Decode\<close> turns it into XML, yet the smart decode returns it undecoded.
\<close>

theorem C3_SmartDecode_counterexample:
  "SmartDecode storedFlate ''PHNhbWw%2B'' = Inr ''PHNhbWw%2B''
   \<and> SmartDecode_claimed storedFlate ''PHNhbWw%2B'' = Inr ''<saml>''"
proof -
  have t: "TrimSpace ''PHNhbWw%2B'' = ''PHNhbWw%2B''"
    by (intro TrimSpace_printable) (simp add: printable_def)
  have x: "xmlShaped ''<saml>''" by (simp add: xmlShaped_def utf8Valid_ascii inRange_def)
  have 1: "SmartDecode storedFlate ''PHNhbWw%2B'' = Inr ''PHNhbWw%2B''"
    by (simp add: SmartDecode_def IsBase64Encoded_def t isBase64Char_def)
  have 2: "SmartDecode_claimed storedFlate ''PHNhbWw%2B'' = Inr ''<saml>''"
    using x by (simp add: SmartDecode_claimed_def t Decode_urlencoded_lit)
  from 1 2 show ?thesis by simp
qed

section \<open>The parser on the sample documents\<close>

lemma sniff_saml2pEncrypted:
  "TrimSpace sampleSaml2pEncryptedXML = sampleSaml2pEncryptedXML"
  "\<not> contains sampleSaml2pEncryptedXML ''<samlp:Response''"
  "\<not> contains sampleSaml2pEncryptedXML ''<Response''"
  "\<not> contains sampleSaml2pEncryptedXML ''<samlp:AuthnRequest''"
  "\<not> contains sampleSaml2pEncryptedXML ''<AuthnRequest''"
  "\<not> contains sampleSaml2pEncryptedXML ''<saml:Assertion''"
  "\<not> contains sampleSaml2pEncryptedXML ''<Assertion''"
       apply (intro TrimSpace_printable, simp add: printable_def sampleSaml2pEncryptedXML_def)
  by (simp_all add: sampleSaml2pEncryptedXML_def)

lemma sniff_saml2pPlain:
  "TrimSpace sampleSaml2pPlainXML = sampleSaml2pPlainXML"
  "\<not> contains sampleSaml2pPlainXML ''<samlp:Response''"
  "\<not> contains sampleSaml2pPlainXML ''<Response''"
  "\<not> contains sampleSaml2pPlainXML ''<samlp:AuthnRequest''"
  "\<not> contains sampleSaml2pPlainXML ''<AuthnRequest''"
  "\<not> contains sampleSaml2pPlainXML ''<saml:Assertion''"
  "\<not> contains sampleSaml2pPlainXML ''<Assertion''"
       apply (intro TrimSpace_printable, simp add: printable_def sampleSaml2pPlainXML_def)
  by (simp_all add: sampleSaml2pPlainXML_def)

lemma unmarshal_saml2p:
  "Unmarshal_Response sampleSaml2pXmllib sampleSaml2pEncryptedXML = Some sampleSaml2pEncrypted"
  "Unmarshal_Response sampleSaml2pXmllib sampleSaml2pPlainXML = Some sampleSaml2pPlain"
  by (simp_all add: sampleSaml2pXmllib_def sampleSaml2pEncryptedXML_def sampleSaml2pPlainXML_def)

lemma extractStatusCode_Success:
  "extractStatusCode ''urn:oasis:names:tc:SAML:2.0:status:Success'' = ''Success''"
  by (simp add: extractStatusCode_def)

theorem C2_partial_parse_amended_witness:
  "(\<exists>info. ParsePartial sampleXmllib sampleEncryptedXML = Inr info
     \<and> info_Type info = ''Response (Encrypted)'' \<and> info_ID info = ''_r1''
     \<and> info_Issuer info = ''idp''
     \<and> info_Status info = Some \<lparr>StatusCode = ''Success'', StatusMessage = []\<rparr>
     \<and> info_Signature info = None)
   \<and> ParsePartial sampleSaml2pXmllib sampleSaml2pEncryptedXML
       = Parse sampleSaml2pXmllib sampleSaml2pEncryptedXML"
proof -
  have t: "TrimSpace sampleEncryptedXML = sampleEncryptedXML"
    by (intro TrimSpace_printable) (simp add: printable_def sampleEncryptedXML_def)
  have c: "contains (TrimSpace sampleEncryptedXML) ''<samlp:Response''"
    unfolding t by (simp add: sampleEncryptedXML_def)
  have u: "Unmarshal_Response sampleXmllib sampleEncryptedXML = Some sampleEncrypted"
    by (simp add: sampleXmllib_def)
  from C2_partial_parse_amended [of sampleEncryptedXML sampleXmllib sampleEncrypted None] c u
    extractStatusCode_Success
  have 1: "\<exists>info. ParsePartial sampleXmllib sampleEncryptedXML = Inr info
     \<and> info_Type info = ''Response (Encrypted)'' \<and> info_ID info = ''_r1''
     \<and> info_Issuer info = ''idp''
     \<and> info_Status info = Some \<lparr>StatusCode = ''Success'', StatusMessage = []\<rparr>
     \<and> info_Signature info = None"
    by (auto simp: sampleEncrypted_def)
  from C2_partial_parse_amended [of sampleSaml2pEncryptedXML sampleSaml2pXmllib]
  have 2: "ParsePartial sampleSaml2pXmllib sampleSaml2pEncryptedXML
       = Parse sampleSaml2pXmllib sampleSaml2pEncryptedXML"
    by (simp add: sniff_saml2pEncrypted)
  from 1 2 show ?thesis by blast
qed

text \<open>
  The claim as worded fails on a response whose element has the prefix \<open>saml2p\<close>: the sniff
  does not find it, \<open>Parse\<close> takes the document, and the record of the response with an
  encrypted assertion has the type tag \<open>Response\<close>.
\<close>

theorem C2_partial_parse_counterexample:
  "ParsePartial sampleSaml2pXmllib sampleSaml2pEncryptedXML =
     Inr (SAMLInfo ''Response'' ''_r3'' None [] []
            (Some \<lparr>StatusCode = ''Success'', StatusMessage = []\<rparr>) ''idp''
            None None None [] None None [] [] None None None [])"
  by (simp add: ParsePartial_unsniffed sniff_saml2pEncrypted
      Parse_unsniffed [OF _ _ _ unmarshal_saml2p(1)] parseResponse_def unmarshal_saml2p
      sampleSaml2pEncrypted_def parseInstant_def parseStatus_def extractStatusCode_Success)

theorem C8_partial_drops_assertion_amended_witness:
  "(\<exists>info full child. ParsePartial sampleXmllib samplePlainXML = Inr info
     \<and> info_Type info = ''Response (Encrypted)'' \<and> info_Assertion info = None
     \<and> Parse sampleXmllib samplePlainXML = Inr full \<and> info_Assertion full = Some child
     \<and> info_ID child = ''_a1'')
   \<and> (\<exists>info child. ParsePartial sampleSaml2pXmllib sampleSaml2pPlainXML = Inr info
     \<and> info_Type info = ''Response'' \<and> info_Assertion info = Some child
     \<and> info_ID child = ''_a2'')"
proof -
  have t: "TrimSpace samplePlainXML = samplePlainXML"
    by (intro TrimSpace_printable) (simp add: printable_def samplePlainXML_def)
  have c: "contains (TrimSpace samplePlainXML) ''<Response''"
    unfolding t by (simp add: samplePlainXML_def)
  have u: "Unmarshal_Response sampleXmllib samplePlainXML = Some samplePlain"
    by (simp add: sampleXmllib_def samplePlainXML_def sampleEncryptedXML_def)
  from C8_partial_drops_assertion_amended [of samplePlainXML sampleXmllib samplePlain] c u
  have 1: "\<exists>info full child. ParsePartial sampleXmllib samplePlainXML = Inr info
     \<and> info_Type info = ''Response (Encrypted)'' \<and> info_Assertion info = None
     \<and> Parse sampleXmllib samplePlainXML = Inr full \<and> info_Assertion full = Some child
     \<and> info_ID child = ''_a1''"
    by (auto simp: samplePlain_def)
  from C8_partial_drops_assertion_amended [of sampleSaml2pPlainXML sampleSaml2pXmllib
      sampleSaml2pPlain "the (resp_Assertion sampleSaml2pPlain)"]
  have 2: "\<exists>info child. ParsePartial sampleSaml2pXmllib sampleSaml2pPlainXML = Inr info
     \<and> info_Type info = ''Response'' \<and> info_Assertion info = Some child
     \<and> info_ID child = ''_a2''"
    by (auto simp: sniff_saml2pPlain unmarshal_saml2p sampleSaml2pPlain_def)
  from 1 2 show ?thesis by blast
qed

text \<open>
  The claim as worded fails on a response whose element has the prefix \<open>saml2p\<close> and which
  holds a plain assertion: the record has the type tag \<open>Response\<close> and the assertion as its
  child.
\<close>

theorem C8_partial_drops_assertion_counterexample:
  "ParsePartial sampleSaml2pXmllib sampleSaml2pPlainXML =
     Inr (SAMLInfo ''Response'' ''_r4'' None [] [] None [] None None None [] None
            (Some (SAMLInfo ''Assertion'' ''_a2'' None [] [] None [] None None None [] None None
                     [] [] None None None []))
            [] [] None None None [])"
  by (simp add: ParsePartial_unsniffed sniff_saml2pPlain
      Parse_unsniffed [OF _ _ _ unmarshal_saml2p(2)] parseResponse_def unmarshal_saml2p
      sampleSaml2pPlain_def parseInstant_def parseStatus_def parseAssertionStruct_def)

text \<open>
  C6, amended: \<open>Decode\<close> fails exactly when no decode strategy accepts the cleaned input,
  and then with an error of the class \<open>MalformedEncoding\<close>; \<open>Parse\<close> fails on bytes that
  unmarshal into none of the three document structures, and every error of \<open>Parse\<close> is of
  the class \<open>MalformedXML\<close>.
\<close>

theorem C6_typed_errors_amended:
  "(Decode input = Inl e \<longleftrightarrow>
      e = Base64DecodeFailed \<and> list_all (\<lambda>r. r = None) (strategies (cleanInput input)))
   \<and> class_of Base64DecodeFailed = MalformedEncoding
   \<and> (Unmarshal_Response lib data = None \<and> Unmarshal_AuthnRequest lib data = None
        \<and> Unmarshal_Assertion lib data = None \<longrightarrow> (\<exists>e'. Parse lib data = Inl e'))
   \<and> (Parse lib data = Inl e' \<longrightarrow> class_of e' = MalformedXML)"
proof (intro conjI impI)
  show "Decode input = Inl e \<longleftrightarrow>
      e = Base64DecodeFailed \<and> list_all (\<lambda>r. r = None) (strategies (cleanInput input))"
    unfolding Decode_first_success
    by (auto simp: list_all_iff find_None_iff find_Some_iff split: option.splits)
      (metis nth_mem)
  show "class_of Base64DecodeFailed = MalformedEncoding" by simp
  show "\<exists>e'. Parse lib data = Inl e'"
    if "Unmarshal_Response lib data = None \<and> Unmarshal_AuthnRequest lib data = None
        \<and> Unmarshal_Assertion lib data = None"
    using that Parse_rejected by blast
  show "class_of e' = MalformedXML" if "Parse lib data = Inl e'"
    using that by (rule Parse_error)
qed

theorem C6_typed_errors_amended_witness:
  "Decode ''not-valid-base64!!!'' = Inl Base64DecodeFailed
   \<and> (\<exists>e'. Parse sampleXmllib [] = Inl e' \<and> class_of e' = MalformedXML)"
proof -
  note c6 = C6_typed_errors_amended [of "''not-valid-base64!!!''" Base64DecodeFailed sampleXmllib "[]"]
  have p: "list_all printable ''not-valid-base64!!!''" by (simp add: printable_def)
  have "list_all (\<lambda>r. r = None) (strategies (cleanInput ''not-valid-base64!!!''))"
    unfolding cleanInput_def clean_encoded [OF p]
    by (simp add: strategies_def ev decodeWithPaddingFix_def)
  with c6 have 1: "Decode ''not-valid-base64!!!'' = Inl Base64DecodeFailed" by blast
  have "Unmarshal_Response sampleXmllib [] = None \<and> Unmarshal_AuthnRequest sampleXmllib [] = None
        \<and> Unmarshal_Assertion sampleXmllib [] = None"
    by (simp add: sampleXmllib_def sampleEncryptedXML_def samplePlainXML_def)
  with c6 obtain e' where 2: "Parse sampleXmllib [] = Inl e'" by blast
  from c6 have "\<And>x. Parse sampleXmllib [] = Inl x \<Longrightarrow> class_of x = MalformedXML"
    using Parse_error by blast
  with 1 2 show ?thesis by blast
qed

text \<open>
  The claim as worded fails on the empty string: the standard base64 strategy accepts it,
  and \<open>Decode\<close> returns no bytes and no error.
\<close>

theorem C6_empty_input_counterexample: "Decode [] = Inr []"
  by (rule Decode_empty)

theorem C10_gate_accepts_unknown_witness:
  "isSAMLXML ''<Response/>'' \<and> detectSAMLType ''<Response/>'' = ''Unknown'' \<and>
   Type (the (fst (tryExtractSAML storedFlate ''PFJlc3BvbnNlLz4='' ''SAMLResponse''
      ''https://sp.example.com/acs'' ''request-body'' 1))) = ''Unknown''"
  using C10_gate_accepts_unknown [of storedFlate] by simp

section \<open>The scan of HTML forms\<close>

subsection \<open>Literals, classes and repetitions on symbolic text\<close>

lemma hasPrefix_iff: "hasPrefix s l = (take (length l) s = l)"
  by (induction s l rule: hasPrefix.induct) auto

lemma hasPrefix_append_self [simp]: "hasPrefix (l @ s) l"
  by (simp add: hasPrefix_iff)

lemma contains_drop: "hasPrefix (drop n v) l \<Longrightarrow> contains v l"
proof (induction v arbitrary: n)
  case Nil
  then show ?case by (cases l) auto
next
  case (Cons c v)
  then show ?case by (cases n) auto
qed



lemma region_quiet_end:
  assumes "\<not> contains v l"
  shows "\<not> hasPrefix (drop n v) l"
  using assms by (auto dest: contains_drop)











lemma rematch_Cls_Cons [simp]:
  "rematch (Cls cl) (c # cs) caps k = (if inClass cl c then k cs caps else None)"
  "rematch (Cls cl) [] caps k = None"
  by simp_all

lemma rematch_Plus_Cons [simp]:
  "rematch (Plus cl) (c # cs) caps k = (if inClass cl c then star cl cs (\<lambda>s'. k s' caps) else None)"
  "rematch (Plus cl) [] caps k = None"
  by simp_all

declare rematch.simps(2,4) [simp del]

lemma in_quotes [simp]: "(c \<in> set quotes) = (c = CHR 0x22 \<or> c = CHR 0x27)"
  by (auto simp: quotes_def)









lemma lit_guard:
  "\<not> hasPrefix s l \<Longrightarrow> rematch (Seq (Lit l) r) s caps k = None"
  by simp



subsection \<open>A field with the name before the value\<close>





subsection \<open>A field with the value before the name\<close>






subsection \<open>What a match needs\<close>












subsection \<open>The matches in a page\<close>








subsection \<open>The fields the scan extracts\<close>








end
